theory Spec2Isabelle
  imports Main
begin

section \<open>The notebook's tool functions\<close>

subsection \<open>Python strings, exceptions and the outcome of a call\<close>

text \<open>
  A Python \<open>str\<close> is a sequence of Unicode code points; equality and hashing of
  dictionary keys compare these sequences. The literals of the notebook are written
  as lists of code points (the notebook's texts are Chinese; the comments give the
  reading).
\<close>

type_synonym pystr = "nat list"


text \<open>
  Exception objects: the \<open>SyntaxError\<close> that the parser raises, with the text that
  \<open>str\<close> gives for it; the \<open>SystemExit\<close> of \<open>sys.exit()\<close>; and any other
  exception object, of which the \<open>except Exception as e\<close> clause needs to know
  whether it is an instance of \<open>Exception\<close> (\<open>SystemExit\<close>,
  \<open>KeyboardInterrupt\<close> and \<open>GeneratorExit\<close> are not). What \<open>str(e)\<close> does
  for such an object is up to its class, and belongs to the runtime below.
\<close>

datatype pyexc = SyntaxError pystr | SystemExit | OtherExc bool nat


text \<open>
  A call runs in a state of the interpreter and its surroundings (\<open>'w\<close>); it
  returns a value, raises, or does not come back.
\<close>

datatype ('a, 'w) res = Returns 'a 'w | Raises pyexc 'w | Diverges

subsection \<open>\<open>get_weather\<close>\<close>

text \<open>
  \<^verbatim>\<open>
  def get_weather(city: str) -> str:
      weather_data = {
          "<Beijing>": "<sunny, temperature 25 C>",
          "<Shanghai>": "<cloudy, temperature 22 C>",
          "<Guangzhou>": "<light rain, temperature 28 C>"
      }
      return weather_data.get(city, "<no weather information found for this city>")
  \<close>
\<close>

definition city_beijing :: pystr where
  "city_beijing = [0x5317, 0x4EAC]"

definition city_shanghai :: pystr where
  "city_shanghai = [0x4E0A, 0x6D77]"

definition city_guangzhou :: pystr where
  "city_guangzhou = [0x5E7F, 0x5DDE]"

definition weather_beijing :: pystr where
  "weather_beijing = [0x6674, 0x5929, 0xFF0C, 0x6E29, 0x5EA6, 0x32, 0x35, 0xB0, 0x43]"

definition weather_shanghai :: pystr where
  "weather_shanghai = [0x591A, 0x4E91, 0xFF0C, 0x6E29, 0x5EA6, 0x32, 0x32, 0xB0, 0x43]"

definition weather_guangzhou :: pystr where
  "weather_guangzhou = [0x5C0F, 0x96E8, 0xFF0C, 0x6E29, 0x5EA6, 0x32, 0x38, 0xB0, 0x43]"

definition weather_not_found :: pystr where
  "weather_not_found =
     [0x672A, 0x627E, 0x5230, 0x8BE5, 0x57CE, 0x5E02, 0x7684, 0x5929, 0x6C14, 0x4FE1, 0x606F]"

definition weather_data :: "pystr \<rightharpoonup> pystr" where
  "weather_data = map_of
     [(city_beijing, weather_beijing),
      (city_shanghai, weather_shanghai),
      (city_guangzhou, weather_guangzhou)]"

text \<open>\<open>dict.get(key, default)\<close>: the value stored under the key, else the default.\<close>

definition dict_get :: "('k \<rightharpoonup> 'v) \<Rightarrow> 'k \<Rightarrow> 'v \<Rightarrow> 'v" where
  "dict_get d k dflt = (case d k of Some v \<Rightarrow> v | None \<Rightarrow> dflt)"

definition get_weather :: "pystr \<Rightarrow> 'w \<Rightarrow> (pystr, 'w) res" where
  "get_weather city w = Returns (dict_get weather_data city weather_not_found) w"

subsection \<open>\<open>calculator\<close>\<close>

text \<open>
  \<^verbatim>\<open>
  def calculator(expression: str) -> str:
      try:
          result = eval(expression)
          return f"<calculation result>: {result}"
      except Exception as e:
          return f"<calculation error>: {str(e)}"
  \<close>
  The function calls three things of the Python runtime that are not code of the
  notebook: in the \<open>try\<close> block the builtin \<open>eval\<close> and the formatting of its
  result (the replacement field \<open>{result}\<close> is \<open>format(result, '')\<close>), and in
  the handler, outside the \<open>try\<close>, the replacement field \<open>{str(e)}\<close>. Each can
  run arbitrary code (\<open>__format__\<close> and \<open>__str__\<close> are methods of the object's
  class), so each is a state transformer with an outcome. The function takes them
  as a parameter; their behaviour on a fragment of Python is given further down.
\<close>

record ('v, 'w) python =
  py_eval :: "pystr \<Rightarrow> 'w \<Rightarrow> ('v, 'w) res"
  py_format :: "'v \<Rightarrow> 'w \<Rightarrow> (pystr, 'w) res"
  py_str :: "pyexc \<Rightarrow> 'w \<Rightarrow> (pystr, 'w) res"






text \<open>
  An exception is raised in the \<open>try\<close> by the evaluation, or by the formatting of
  the value; and the state that a call leaves, if it comes back.
\<close>

definition raised_in_try :: "('v, 'w) python \<Rightarrow> pystr \<Rightarrow> 'w \<Rightarrow> pyexc \<Rightarrow> 'w \<Rightarrow> bool" where
  "raised_in_try P expression w e w1 =
     (py_eval P expression w = Raises e w1 \<or>
      (\<exists>v w0. py_eval P expression w = Returns v w0 \<and> py_format P v w0 = Raises e w1))"


subsection \<open>A fragment of CPython's \<open>eval\<close> and \<open>format\<close>\<close>
























section \<open>The shell scripts\<close>

subsection \<open>Files, programs and the state of a run\<close>

text \<open>
  The scripts work in the project directory. A path names a regular file with its
  bytes, or a directory; permissions are not modelled.
\<close>

type_synonym path = string

datatype node = File string | Dir

type_synonym fs = "path \<rightharpoonup> node"

record 'x machine =
  files :: fs
  unseen :: 'x

text \<open>
  Programs that the scripts call and that are not part of the repository
  (\<open>python3\<close>, \<open>pip\<close>, \<open>docker\<close>, \<open>streamlit\<close>, the sourced \<open>activate\<close> script,
  pipelines over \<open>ps\<close>) are a parameter: a command line, run on a machine, gives an
  exit status and the machine afterwards, or does not come back. So are the lookup of
  a command name, the key read from the terminal, the start of a background job and
  its process id.
\<close>

record 'x programs =
  external :: "string \<Rightarrow> 'x machine \<Rightarrow> (nat \<times> 'x machine) option"
  command_v :: "string \<Rightarrow> 'x machine \<Rightarrow> bool"
  read_key :: "'x machine \<Rightarrow> string \<times> nat \<times> 'x machine"
  spawn :: "string \<Rightarrow> 'x machine \<Rightarrow> 'x machine"
  last_pid :: "'x machine \<Rightarrow> string"

text \<open>
  What a run leaves behind: the lines it echoes, what a modelled command writes to
  the standard error, and every other command it executes, in order.
\<close>

datatype event = Echo string | Stderr string | Cmd string

datatype progress = Running | Exited nat | Hung

record 'x sh =
  machine :: "'x machine"
  positional :: "string list"
  trace :: "event list"
  status :: nat
  progress :: progress
  reply :: string

definition initial :: "string list \<Rightarrow> 'x machine \<Rightarrow> 'x sh" where
  "initial args m =
     \<lparr>machine = m, positional = args, trace = [], status = 0, progress = Running, reply = []\<rparr>"

text \<open>
  The exit status of the script: that of \<open>exit\<close>, else that of the last command.
\<close>

definition exit_status :: "'x sh \<Rightarrow> nat option" where
  "exit_status s =
     (case progress s of Running \<Rightarrow> Some (status s) | Exited n \<Rightarrow> Some n | Hung \<Rightarrow> None)"

subsection \<open>Commands\<close>

text \<open>A list of commands runs in order, until one exits or does not return.\<close>

fun seq :: "('x sh \<Rightarrow> 'x sh) list \<Rightarrow> 'x sh \<Rightarrow> 'x sh" where
  "seq [] s = s"
| "seq (c # cs) s = (if progress s = Running then seq cs (c s) else s)"

definition echo :: "string \<Rightarrow> 'x sh \<Rightarrow> 'x sh" where
  "echo text s = s\<lparr>trace := trace s @ [Echo text], status := 0\<rparr>"

definition exit_1 :: "'x sh \<Rightarrow> 'x sh" where
  "exit_1 s = s\<lparr>trace := trace s @ [Cmd ''exit 1''], progress := Exited 1\<rparr>"

definition run :: "'x programs \<Rightarrow> string \<Rightarrow> 'x sh \<Rightarrow> 'x sh" where
  "run P line s =
     (case external P line (machine s) of
        None \<Rightarrow> s\<lparr>trace := trace s @ [Cmd line], progress := Hung\<rparr>
      | Some (st, m) \<Rightarrow> s\<lparr>machine := m, trace := trace s @ [Cmd line], status := st\<rparr>)"

text \<open>\<open>command -v NAME &> /dev/null\<close>\<close>

definition have_command :: "'x programs \<Rightarrow> string \<Rightarrow> 'x sh \<Rightarrow> 'x sh" where
  "have_command P name s =
     s\<lparr>trace := trace s @ [Cmd (''command -v '' @ name)],
       status := (if command_v P name (machine s) then 0 else 1)\<rparr>"

text \<open>\<open>! command\<close>\<close>

definition negated :: "('x sh \<Rightarrow> 'x sh) \<Rightarrow> 'x sh \<Rightarrow> 'x sh" where
  "negated c s =
     (let s1 = c s
      in if progress s1 = Running then s1\<lparr>status := (if status s1 = 0 then 1 else 0)\<rparr>
         else s1)"

text \<open>
  \<open>if c; then ...; else ...; fi\<close>. The status is that of the last command of the
  branch taken, and zero when no branch runs.
\<close>

definition if_then_else ::
  "('x sh \<Rightarrow> 'x sh) \<Rightarrow> ('x sh \<Rightarrow> 'x sh) list \<Rightarrow> ('x sh \<Rightarrow> 'x sh) list \<Rightarrow> 'x sh \<Rightarrow> 'x sh" where
  "if_then_else c thn els s =
     (let s1 = c s
      in if progress s1 = Running
         then (if status s1 = 0 then seq thn s1 else seq els (s1\<lparr>status := 0\<rparr>))
         else s1)"

definition is_file :: "node option \<Rightarrow> bool" where
  "is_file n = (case n of Some (File c) \<Rightarrow> True | _ \<Rightarrow> False)"

text \<open>\<open>[ -d PATH ]\<close> and \<open>[ ! -f PATH ]\<close>\<close>

definition test_d :: "path \<Rightarrow> 'x sh \<Rightarrow> 'x sh" where
  "test_d p s =
     s\<lparr>trace := trace s @ [Cmd (''[ -d '' @ p @ '' ]'')],
       status := (if files (machine s) p = Some Dir then 0 else 1)\<rparr>"

definition test_not_f :: "path \<Rightarrow> 'x sh \<Rightarrow> 'x sh" where
  "test_not_f p s =
     s\<lparr>trace := trace s @ [Cmd (''[ ! -f '' @ p @ '' ]'')],
       status := (if is_file (files (machine s) p) then 1 else 0)\<rparr>"

subsubsection \<open>\<open>grep -q\<close>\<close>

text \<open>
  \<open>grep -q PATTERN FILE\<close> for a pattern without regular-expression operators, as
  \<open>sk-\<close> is: status 0 when a line of the file contains the pattern, 1 when none does,
  2 (and a complaint on the standard error) when the file cannot be read.
\<close>

fun starts_with :: "string \<Rightarrow> string \<Rightarrow> bool" where
  "starts_with [] s = True"
| "starts_with (p # ps) [] = False"
| "starts_with (p # ps) (c # cs) = (p = c \<and> starts_with ps cs)"

fun contains :: "string \<Rightarrow> string \<Rightarrow> bool" where
  "contains pat [] = (pat = [])"
| "contains pat (c # cs) = (starts_with pat (c # cs) \<or> contains pat cs)"

fun lines_of :: "string \<Rightarrow> string \<Rightarrow> string list" where
  "lines_of cur [] = (if cur = [] then [] else [cur])"
| "lines_of cur (c # cs) =
     (if c = CHR 0x0A then cur # lines_of [] cs else lines_of (cur @ [c]) cs)"

definition grep_status :: "string \<Rightarrow> node option \<Rightarrow> nat" where
  "grep_status pat n =
     (case n of
        Some (File c) \<Rightarrow> if list_ex (contains pat) (lines_of [] c) then 0 else 1
      | _ \<Rightarrow> 2)"

definition grep_complaint :: "path \<Rightarrow> node option \<Rightarrow> event list" where
  "grep_complaint p n =
     (case n of
        None \<Rightarrow> [Stderr (''grep: '' @ p @ '': No such file or directory'')]
      | Some Dir \<Rightarrow> [Stderr (''grep: '' @ p @ '': Is a directory'')]
      | Some (File c) \<Rightarrow> [])"

definition grep_q :: "string \<Rightarrow> path \<Rightarrow> 'x sh \<Rightarrow> 'x sh" where
  "grep_q pat p s =
     s\<lparr>trace := trace s @ [Cmd (''grep -q '' @ pat @ '' '' @ p)]
                 @ grep_complaint p (files (machine s) p),
       status := grep_status pat (files (machine s) p)\<rparr>"

text \<open>\<open>command 2>/dev/null\<close>: what the command writes to the standard error is dropped.\<close>

definition on_stderr :: "event \<Rightarrow> bool" where
  "on_stderr e = (case e of Stderr t \<Rightarrow> True | _ \<Rightarrow> False)"

definition stderr_to_null :: "('x sh \<Rightarrow> 'x sh) \<Rightarrow> 'x sh \<Rightarrow> 'x sh" where
  "stderr_to_null c s =
     (let s1 = c s
      in s1\<lparr>trace := trace s @ filter (\<lambda>e. \<not> on_stderr e) (drop (length (trace s)) (trace s1))\<rparr>)"

subsubsection \<open>File utilities\<close>

text \<open>
  \<open>mkdir -p\<close> makes each operand and the directories above it, and fails on an
  operand when one of these is a regular file.
\<close>

fun parents :: "path \<Rightarrow> path \<Rightarrow> path list" where
  "parents acc [] = [acc]"
| "parents acc (c # cs) =
     (if c = CHR ''/'' then acc # parents (acc @ [c]) cs else parents (acc @ [c]) cs)"

fun make_dirs :: "path list \<Rightarrow> fs \<Rightarrow> fs \<times> bool" where
  "make_dirs [] f = (f, True)"
| "make_dirs (d # ds) f = (if is_file (f d) then (f, False) else make_dirs ds (f(d \<mapsto> Dir)))"

fun mkdir_operands :: "path list \<Rightarrow> fs \<Rightarrow> fs \<times> bool" where
  "mkdir_operands [] f = (f, True)"
| "mkdir_operands (p # ps) f =
     (case make_dirs (parents [] p) f of
        (f1, ok1) \<Rightarrow> (case mkdir_operands ps f1 of (f2, ok2) \<Rightarrow> (f2, ok1 \<and> ok2)))"

definition mkdir_p :: "path list \<Rightarrow> 'x sh \<Rightarrow> 'x sh" where
  "mkdir_p ps s =
     (case mkdir_operands ps (files (machine s)) of
        (f, ok) \<Rightarrow>
          s\<lparr>machine := (machine s)\<lparr>files := f\<rparr>,
            trace := trace s @ [Cmd (''mkdir -p'' @ concat (map (\<lambda>p. '' '' @ p) ps))],
            status := (if ok then 0 else 1)\<rparr>)"

text \<open>\<open>rm -rf DIR\<close> removes the path and everything below it.\<close>

definition under :: "path \<Rightarrow> path \<Rightarrow> bool" where
  "under d q = (q = d \<or> starts_with (d @ ''/'') q)"

definition removed :: "path \<Rightarrow> 'x machine \<Rightarrow> 'x machine" where
  "removed d m = m\<lparr>files := (\<lambda>q. if under d q then None else files m q)\<rparr>"

definition rm_rf :: "path \<Rightarrow> 'x sh \<Rightarrow> 'x sh" where
  "rm_rf d s =
     s\<lparr>machine := removed d (machine s),
       trace := trace s @ [Cmd (''rm -rf '' @ d)],
       status := 0\<rparr>"

text \<open>
  \<open>cat > PATH << EOF\<close>: the redirection creates or truncates the file, and fails
  on a directory.
\<close>

definition write_file :: "path \<Rightarrow> string \<Rightarrow> 'x sh \<Rightarrow> 'x sh" where
  "write_file p text s =
     (if files (machine s) p = Some Dir
      then s\<lparr>trace := trace s @ [Cmd (''cat > '' @ p)], status := 1\<rparr>
      else s\<lparr>machine := (machine s)\<lparr>files := (files (machine s))(p \<mapsto> File text)\<rparr>,
             trace := trace s @ [Cmd (''cat > '' @ p)],
             status := 0\<rparr>)"

text \<open>
  \<open>cp SRC DST\<close> for a regular file \<open>SRC\<close> in the working directory: into the
  directory \<open>DST\<close> when it is one, else onto \<open>DST\<close>.
\<close>

definition cp :: "path \<Rightarrow> path \<Rightarrow> 'x sh \<Rightarrow> 'x sh" where
  "cp src dst s =
     (let f = files (machine s);
          target = (if f dst = Some Dir then dst @ ''/'' @ src else dst)
      in case f src of
           Some (File c) \<Rightarrow>
             if f target = Some Dir
             then s\<lparr>trace := trace s @ [Cmd (''cp '' @ src @ '' '' @ dst)], status := 1\<rparr>
             else s\<lparr>machine := (machine s)\<lparr>files := f(target \<mapsto> File c)\<rparr>,
                    trace := trace s @ [Cmd (''cp '' @ src @ '' '' @ dst)],
                    status := 0\<rparr>
         | _ \<Rightarrow> s\<lparr>trace := trace s @ [Cmd (''cp '' @ src @ '' '' @ dst)], status := 1\<rparr>)"

definition chmod_x :: "path \<Rightarrow> 'x sh \<Rightarrow> 'x sh" where
  "chmod_x p s =
     s\<lparr>trace := trace s @ [Cmd (''chmod +x '' @ p)],
       status := (if files (machine s) p = None then 1 else 0)\<rparr>"

subsubsection \<open>The terminal and background jobs\<close>

text \<open>\<open>read -p PROMPT -n 1 -r\<close> puts the key typed into \<open>REPLY\<close>.\<close>

definition read_reply :: "'x programs \<Rightarrow> 'x sh \<Rightarrow> 'x sh" where
  "read_reply P s =
     (case read_key P (machine s) of
        (k, st, m) \<Rightarrow>
          s\<lparr>machine := m, trace := trace s @ [Cmd ''read -n 1 -r''], status := st, reply := k\<rparr>)"

text \<open>\<open>[[ $REPLY =~ ^[Yy]$ ]]\<close>\<close>

definition reply_is_yes :: "'x sh \<Rightarrow> 'x sh" where
  "reply_is_yes s =
     s\<lparr>trace := trace s @ [Cmd ''[[ $REPLY =~ ^[Yy]$ ]]''],
       status := (if reply s = ''y'' \<or> reply s = ''Y'' then 0 else 1)\<rparr>"

text \<open>\<open>command &\<close> starts the command and goes on at once, with status 0.\<close>

definition background :: "'x programs \<Rightarrow> string \<Rightarrow> 'x sh \<Rightarrow> 'x sh" where
  "background P line s =
     s\<lparr>machine := spawn P line (machine s),
       trace := trace s @ [Cmd (line @ '' &'')],
       status := 0\<rparr>"

definition echo_pid :: "'x programs \<Rightarrow> (string \<Rightarrow> string) \<Rightarrow> 'x sh \<Rightarrow> 'x sh" where
  "echo_pid P text s = echo (text (last_pid P (machine s))) s"

text \<open>UTF-8, for the texts the scripts echo.\<close>

definition utf8_char :: "nat \<Rightarrow> string" where
  "utf8_char c =
     (if c < 0x80 then [char_of c]
      else if c < 0x800 then [char_of (0xC0 + c div 64), char_of (0x80 + c mod 64)]
      else if c < 0x10000
        then [char_of (0xE0 + c div 4096), char_of (0x80 + c div 64 mod 64),
              char_of (0x80 + c mod 64)]
      else [char_of (0xF0 + c div 262144), char_of (0x80 + c div 4096 mod 64),
            char_of (0x80 + c div 64 mod 64), char_of (0x80 + c mod 64)])"

definition utf8 :: "nat list \<Rightarrow> string" where
  "utf8 cs = concat (map utf8_char cs)"

subsection \<open>The texts the scripts echo\<close>

text \<open>Warning: first configure OPENAI_API_KEY in the .env file.\<close>

definition hint_configure_key :: string where
  "hint_configure_key =
     utf8 [0x26A0, 0xFE0F] @ ''  '' @ utf8 [0x8BF7, 0x5148, 0x5728] @ '' .env ''
     @ utf8 [0x6587, 0x4EF6, 0x4E2D, 0x914D, 0x7F6E] @ '' OPENAI_API_KEY''"

text \<open>Command to edit: nano .env.\<close>

definition hint_edit_command :: string where
  "hint_edit_command =
     utf8 [0x7F16, 0x8F91, 0x547D, 0x4EE4] @ '': nano .env''"

text \<open>Starting the web interface of the document assistant (simplified).\<close>

definition web_simple_banner :: string where
  "web_simple_banner =
     utf8 [0x1F680] @ '' ''
     @ utf8 [0x542F, 0x52A8, 0x667A, 0x80FD, 0x6587, 0x6863, 0x52A9, 0x624B] @ ''Web''
     @ utf8 [0x754C, 0x9762, 0xFF08, 0x7B80, 0x5316, 0x7248, 0xFF09] @ ''...''"

text \<open>Starting the web interface.\<close>

definition web_starting :: string where
  "web_starting =
     utf8 [0x1F310] @ '' '' @ utf8 [0x542F, 0x52A8] @ ''Web'' @ utf8 [0x754C, 0x9762] @ ''...''"

text \<open>Address to visit.\<close>

definition web_address :: string where
  "web_address =
     utf8 [0x1F517] @ '' '' @ utf8 [0x8BBF, 0x95EE, 0x5730, 0x5740]
     @ '': http://localhost:8501''"

text \<open>Use Ctrl+C to stop the service.\<close>

definition stop_with_ctrl_c :: string where
  "stop_with_ctrl_c =
     utf8 [0x1F527] @ '' '' @ utf8 [0x4F7F, 0x7528] @ '' Ctrl+C ''
     @ utf8 [0x505C, 0x6B62, 0x670D, 0x52A1]"

text \<open>This is the simplified interface, it uses RAG directly, without the MCP service.\<close>

definition web_simple_note :: string where
  "web_simple_note =
     utf8 [0x1F4A1] @ '' ''
     @ utf8 [0x8FD9, 0x662F, 0x7B80, 0x5316, 0x7248, 0x754C, 0x9762, 0xFF0C, 0x76F4, 0x63A5, 0x4F7F, 0x7528]
     @ ''RAG'' @ utf8 [0x529F, 0x80FD, 0xFF0C, 0x65E0, 0x9700] @ ''MCP''
     @ utf8 [0x670D, 0x52A1]"

text \<open>Starting the web interface of the document assistant.\<close>

definition web_banner :: string where
  "web_banner =
     utf8 [0x1F680] @ '' ''
     @ utf8 [0x542F, 0x52A8, 0x667A, 0x80FD, 0x6587, 0x6863, 0x52A9, 0x624B] @ ''Web''
     @ utf8 [0x754C, 0x9762] @ ''...''"

text \<open>Checking the state of the MCP service.\<close>

definition mcp_checking :: string where
  "mcp_checking =
     utf8 [0x1F50D] @ '' '' @ utf8 [0x68C0, 0x67E5] @ ''MCP''
     @ utf8 [0x670D, 0x52A1, 0x72B6, 0x6001] @ ''...''"

text \<open>The MCP service is not running, first run ./start.sh in another terminal.\<close>

definition mcp_not_running :: string where
  "mcp_not_running =
     utf8 [0x26A0, 0xFE0F] @ ''  MCP''
     @ utf8 [0x670D, 0x52A1, 0x672A, 0x8FD0, 0x884C, 0xFF0C, 0x8BF7, 0x5148, 0x5728, 0x53E6, 0x4E00, 0x4E2A, 0x7EC8, 0x7AEF, 0x8FD0, 0x884C]
     @ '': ./start.sh''"

text \<open>Hint: the MCP service and the web interface must run together.\<close>

definition mcp_both_needed :: string where
  "mcp_both_needed =
     utf8 [0x1F4A1] @ '' '' @ utf8 [0x63D0, 0x793A] @ '': ''
     @ utf8 [0x9700, 0x8981, 0x540C, 0x65F6, 0x8FD0, 0x884C] @ ''MCP''
     @ utf8 [0x670D, 0x52A1, 0x548C] @ ''Web'' @ utf8 [0x754C, 0x9762]"

text \<open>Starting the MCP service in the background.\<close>

definition mcp_background_starting :: string where
  "mcp_background_starting =
     utf8 [0x1F680] @ '' '' @ utf8 [0x5728, 0x540E, 0x53F0, 0x542F, 0x52A8] @ ''MCP''
     @ utf8 [0x670D, 0x52A1] @ ''...''"

text \<open>Starting the document assistant system.\<close>

definition start_banner :: string where
  "start_banner =
     utf8 [0x1F680] @ '' ''
     @ utf8 [0x542F, 0x52A8, 0x667A, 0x80FD, 0x6587, 0x6863, 0x52A9, 0x624B, 0x7CFB, 0x7EDF]
     @ ''...''"

text \<open>Checking the PostgreSQL connection.\<close>

definition postgres_checking :: string where
  "postgres_checking =
     utf8 [0x1F5C4, 0xFE0F] @ ''  '' @ utf8 [0x68C0, 0x67E5] @ ''PostgreSQL''
     @ utf8 [0x8FDE, 0x63A5] @ ''...''"

text \<open>PostgreSQL connection fine (using the existing fusion_postgres container).\<close>

definition postgres_ok :: string where
  "postgres_ok =
     utf8 [0x2705] @ '' PostgreSQL'' @ utf8 [0x8FDE, 0x63A5, 0x6B63, 0x5E38] @ '' (''
     @ utf8 [0x4F7F, 0x7528, 0x73B0, 0x6709] @ ''fusion_postgres'' @ utf8 [0x5BB9, 0x5668]
     @ '')''"

text \<open>PostgreSQL connection failed, check the fusion_postgres container.\<close>

definition postgres_failed :: string where
  "postgres_failed =
     utf8 [0x274C] @ '' PostgreSQL''
     @ utf8 [0x8FDE, 0x63A5, 0x5931, 0x8D25, 0xFF0C, 0x8BF7, 0x68C0, 0x67E5]
     @ ''fusion_postgres'' @ utf8 [0x5BB9, 0x5668]"

text \<open>Starting the Redis service.\<close>

definition redis_starting :: string where
  "redis_starting =
     utf8 [0x1F433] @ '' '' @ utf8 [0x542F, 0x52A8] @ ''Redis'' @ utf8 [0x670D, 0x52A1]
     @ ''...''"

text \<open>Docker Compose is not installed, the in-memory cache will be used.\<close>

definition compose_missing :: string where
  "compose_missing =
     utf8 [0x26A0, 0xFE0F] @ ''  Docker Compose ''
     @ utf8 [0x672A, 0x5B89, 0x88C5, 0xFF0C, 0x5C06, 0x4F7F, 0x7528, 0x5185, 0x5B58, 0x7F13, 0x5B58]"

text \<open>Starting the RAG MCP service.\<close>

definition rag_starting :: string where
  "rag_starting =
     utf8 [0x1F4DA] @ '' '' @ utf8 [0x542F, 0x52A8] @ ''RAG MCP'' @ utf8 [0x670D, 0x52A1]
     @ ''...''"

text \<open>Hint: this is an MCP server, an MCP client has to connect.\<close>

definition mcp_server_note :: string where
  "mcp_server_note =
     utf8 [0x1F4A1] @ '' '' @ utf8 [0x63D0, 0x793A] @ '': ''
     @ utf8 [0x8FD9, 0x662F, 0x4E00, 0x4E2A] @ ''MCP''
     @ utf8 [0x670D, 0x52A1, 0x5668, 0xFF0C, 0x9700, 0x8981] @ ''MCP''
     @ utf8 [0x5BA2, 0x6237, 0x7AEF, 0x8FDE, 0x63A5]"

text \<open>Starting to set up the document assistant system.\<close>

definition setup_banner :: string where
  "setup_banner =
     utf8 [0x1F680] @ '' ''
     @ utf8 [0x5F00, 0x59CB, 0x8BBE, 0x7F6E, 0x667A, 0x80FD, 0x6587, 0x6863, 0x52A9, 0x624B, 0x7CFB, 0x7EDF]
     @ ''...''"

text \<open>Checking the system dependencies.\<close>

definition deps_checking :: string where
  "deps_checking =
     utf8 [0x1F50D] @ '' '' @ utf8 [0x68C0, 0x67E5, 0x7CFB, 0x7EDF, 0x4F9D, 0x8D56] @ ''...''"

text \<open>Python3 is not installed, first run: sudo apt install python3.\<close>

definition python3_missing :: string where
  "python3_missing =
     utf8 [0x274C] @ '' Python3 ''
     @ utf8 [0x672A, 0x5B89, 0x88C5, 0xFF0C, 0x8BF7, 0x5148, 0x8FD0, 0x884C]
     @ '': sudo apt install python3''"

text \<open>Python3-venv is not installed, first run: sudo apt install python3-venv.\<close>

definition venv_module_missing :: string where
  "venv_module_missing =
     utf8 [0x274C] @ '' python3-venv ''
     @ utf8 [0x672A, 0x5B89, 0x88C5, 0xFF0C, 0x8BF7, 0x5148, 0x8FD0, 0x884C]
     @ '': sudo apt install python3-venv''"

text \<open>Pip3 is not installed, first run: sudo apt install python3-pip.\<close>

definition pip3_missing :: string where
  "pip3_missing =
     utf8 [0x274C] @ '' pip3 ''
     @ utf8 [0x672A, 0x5B89, 0x88C5, 0xFF0C, 0x8BF7, 0x5148, 0x8FD0, 0x884C]
     @ '': sudo apt install python3-pip''"

text \<open>System dependencies checked.\<close>

definition deps_ok :: string where
  "deps_ok =
     utf8 [0x2705] @ '' ''
     @ utf8 [0x7CFB, 0x7EDF, 0x4F9D, 0x8D56, 0x68C0, 0x67E5, 0x901A, 0x8FC7]"

text \<open>Creating the project directories.\<close>

definition dirs_creating :: string where
  "dirs_creating =
     utf8 [0x1F4C1] @ '' ''
     @ utf8 [0x521B, 0x5EFA, 0x9879, 0x76EE, 0x76EE, 0x5F55, 0x7ED3, 0x6784] @ ''...''"

text \<open>Cleaning the old virtual environment.\<close>

definition venv_cleaning :: string where
  "venv_cleaning =
     utf8 [0x1F9F9] @ '' ''
     @ utf8 [0x6E05, 0x7406, 0x65E7, 0x7684, 0x865A, 0x62DF, 0x73AF, 0x5883] @ ''...''"

text \<open>Creating the Python virtual environment.\<close>

definition venv_creating :: string where
  "venv_creating =
     utf8 [0x1F40D] @ '' '' @ utf8 [0x521B, 0x5EFA] @ ''Python''
     @ utf8 [0x865A, 0x62DF, 0x73AF, 0x5883] @ ''...''"

text \<open>Creating the virtual environment failed.\<close>

definition venv_failed :: string where
  "venv_failed =
     utf8 [0x274C] @ '' ''
     @ utf8 [0x865A, 0x62DF, 0x73AF, 0x5883, 0x521B, 0x5EFA, 0x5931, 0x8D25]"

text \<open>Activating the virtual environment.\<close>

definition venv_activating :: string where
  "venv_activating =
     utf8 [0x26A1] @ '' '' @ utf8 [0x6FC0, 0x6D3B, 0x865A, 0x62DF, 0x73AF, 0x5883] @ ''...''"

text \<open>Installing the packages.\<close>

definition packages_installing :: string where
  "packages_installing =
     utf8 [0x1F4E6] @ '' '' @ utf8 [0x5B89, 0x88C5, 0x4F9D, 0x8D56, 0x5305] @ ''...''"

text \<open>Creating the environment configuration file.\<close>

definition env_example_creating :: string where
  "env_example_creating =
     utf8 [0x1F527] @ '' ''
     @ utf8 [0x521B, 0x5EFA, 0x73AF, 0x5883, 0x914D, 0x7F6E, 0x6587, 0x4EF6] @ ''...''"

text \<open>Creating the Docker configuration.\<close>

definition compose_creating :: string where
  "compose_creating =
     utf8 [0x1F433] @ '' '' @ utf8 [0x521B, 0x5EFA] @ ''Docker'' @ utf8 [0x914D, 0x7F6E]
     @ ''...''"

text \<open>Creating requirements.txt.\<close>

definition requirements_creating :: string where
  "requirements_creating =
     utf8 [0x1F4DD] @ '' '' @ utf8 [0x521B, 0x5EFA] @ ''requirements.txt...''"

text \<open>Creating the start script.\<close>

definition start_script_creating :: string where
  "start_script_creating =
     utf8 [0x1F680] @ '' '' @ utf8 [0x521B, 0x5EFA, 0x542F, 0x52A8, 0x811A, 0x672C] @ ''...''"

text \<open>Creating the test script.\<close>

definition test_script_creating :: string where
  "test_script_creating =
     utf8 [0x1F9EA] @ '' '' @ utf8 [0x521B, 0x5EFA, 0x6D4B, 0x8BD5, 0x811A, 0x672C] @ ''...''"

text \<open>Environment file created, edit .env and add your API key.\<close>

definition env_created :: string where
  "env_created =
     utf8 [0x2705] @ '' ''
     @ utf8 [0x73AF, 0x5883, 0x914D, 0x7F6E, 0x6587, 0x4EF6, 0x5DF2, 0x521B, 0x5EFA, 0xFF0C, 0x8BF7, 0x7F16, 0x8F91]
     @ '' .env '' @ utf8 [0x6587, 0x4EF6, 0x6DFB, 0x52A0, 0x4F60, 0x7684] @ ''API''
     @ utf8 [0x5BC6, 0x94A5]"

text \<open>The .env file already exists.\<close>

definition env_exists :: string where
  "env_exists =
     utf8 [0x2705] @ '' .env '' @ utf8 [0x6587, 0x4EF6, 0x5DF2, 0x5B58, 0x5728]"

text \<open>Set-up finished.\<close>

definition setup_done :: string where
  "setup_done =
     utf8 [0x2705] @ '' '' @ utf8 [0x73AF, 0x5883, 0x8BBE, 0x7F6E, 0x5B8C, 0x6210, 0xFF01]"

text \<open>Next steps.\<close>

definition next_steps :: string where
  "next_steps =
     utf8 [0x1F4CB] @ '' '' @ utf8 [0x4E0B, 0x4E00, 0x6B65, 0x64CD, 0x4F5C, 0xFF1A]"

text \<open>1. configure the API key: nano .env.\<close>

definition next_configure :: string where
  "next_configure =
     ''1. '' @ utf8 [0x914D, 0x7F6E] @ ''API'' @ utf8 [0x5BC6, 0x94A5] @ '': nano .env''"

text \<open>2. test the environment: python test.py.\<close>

definition next_test :: string where
  "next_test =
     ''2. '' @ utf8 [0x6D4B, 0x8BD5, 0x73AF, 0x5883] @ '': python test.py''"

text \<open>3. start the system: ./start.sh.\<close>

definition next_start :: string where
  "next_start =
     ''3. '' @ utf8 [0x542F, 0x52A8, 0x7CFB, 0x7EDF] @ '': ./start.sh''"

text \<open>Next.\<close>

definition project_next_steps :: string where
  "project_next_steps =
     utf8 [0x4E0B, 0x4E00, 0x6B65, 0xFF1A]"

text \<open>1. copy .env.example to .env and fill in the configuration.\<close>

definition project_next_copy :: string where
  "project_next_copy =
     ''1. '' @ utf8 [0x590D, 0x5236] @ '' .env.example '' @ utf8 [0x5230] @ '' .env ''
     @ utf8 [0x5E76, 0x586B, 0x5199, 0x914D, 0x7F6E]"

text \<open>2. start the database services.\<close>

definition project_next_database :: string where
  "project_next_database =
     ''2. '' @ utf8 [0x542F, 0x52A8, 0x6570, 0x636E, 0x5E93, 0x670D, 0x52A1]
     @ '': docker-compose up -d postgres redis''"

text \<open>3. run 'source venv/bin/activate' to activate the virtual environment.\<close>

definition project_next_activate :: string where
  "project_next_activate =
     ''3. '' @ utf8 [0x8FD0, 0x884C] @ '' '' @ [CHR 0x27] @ ''source venv/bin/activate''
     @ [CHR 0x27] @ '' '' @ utf8 [0x6FC0, 0x6D3B, 0x865A, 0x62DF, 0x73AF, 0x5883]"

text \<open>4. start implementing the first MCP service.\<close>

definition project_next_implement :: string where
  "project_next_implement =
     ''4. '' @ utf8 [0x5F00, 0x59CB, 0x5B9E, 0x73B0, 0x7B2C, 0x4E00, 0x4E2A] @ ''MCP''
     @ utf8 [0x670D, 0x52A1]"

text \<open>The MCP service was started in the background, with its process id.\<close>

definition mcp_background_started :: "string \<Rightarrow> string" where
  "mcp_background_started pid =
     utf8 [0x2705] @ '' MCP''
     @ utf8 [0x670D, 0x52A1, 0x5DF2, 0x5728, 0x540E, 0x53F0, 0x542F, 0x52A8] @ '' (PID: ''
     @ pid @ '')''"

subsection \<open>The launch scripts\<close>

text \<open>
  The three launch scripts start alike:
  \<^verbatim>\<open>
  echo "..."
  source venv/bin/activate
  if ! grep -q "sk-" .env 2>/dev/null; then
      echo "<first configure OPENAI_API_KEY in the .env file>"
      echo "<command to edit>: nano .env"
      exit 1
  fi
  \<close>
  Command lines are written as the shell passes them on, after quote removal.
\<close>

definition activate :: "'x programs \<Rightarrow> 'x sh \<Rightarrow> 'x sh" where
  "activate P = run P ''source venv/bin/activate''"

definition env_check :: "'x sh \<Rightarrow> 'x sh" where
  "env_check =
     if_then_else (negated (stderr_to_null (grep_q ''sk-'' ''.env'')))
       [echo hint_configure_key, echo hint_edit_command, exit_1]
       []"

definition load_env :: "'x programs \<Rightarrow> 'x sh \<Rightarrow> 'x sh" where
  "load_env P = run P ''export $(cat .env | grep -v ^# | xargs)''"

text \<open>The simplified web launcher (the first script of \<open>src/unnamed/part_001\<close>).\<close>

definition streamlit_simple :: string where
  "streamlit_simple =
     ''streamlit run frontend/simple_app.py --server.port 8501 --server.address 0.0.0.0''
     @ '' --server.headless true --browser.gatherUsageStats false''"

definition run_web_simple_rest :: "'x programs \<Rightarrow> ('x sh \<Rightarrow> 'x sh) list" where
  "run_web_simple_rest P =
     [load_env P,
      echo web_starting,
      echo web_address,
      echo stop_with_ctrl_c,
      echo [],
      echo web_simple_note,
      run P streamlit_simple]"

definition run_web_simple_body :: "'x programs \<Rightarrow> ('x sh \<Rightarrow> 'x sh) list" where
  "run_web_simple_body P =
     [echo web_simple_banner, activate P, env_check] @ run_web_simple_rest P"

text \<open>The web launcher (the second script of \<open>src/unnamed/part_001\<close>).\<close>

definition mcp_is_running :: string where
  "mcp_is_running = ''ps aux | grep -v grep | grep -q mcp_services/rag_service/server.py''"

definition mcp_in_background :: string where
  "mcp_in_background =
     ''nohup python mcp_services/rag_service/server.py > logs/mcp_server.log 2>&1''"

definition streamlit_app :: string where
  "streamlit_app =
     ''streamlit run frontend/app.py --server.port 8501 --server.address localhost''
     @ '' --server.headless true --browser.gatherUsageStats false''"

definition run_web_rest :: "'x programs \<Rightarrow> ('x sh \<Rightarrow> 'x sh) list" where
  "run_web_rest P =
     [echo mcp_checking,
      if_then_else (negated (run P mcp_is_running))
        [echo mcp_not_running,
         echo mcp_both_needed,
         read_reply P,
         echo [],
         if_then_else reply_is_yes
           [echo mcp_background_starting,
            background P mcp_in_background,
            echo_pid P mcp_background_started,
            run P ''sleep 3'']
           [exit_1]]
        [],
      echo web_starting,
      echo web_address,
      echo stop_with_ctrl_c,
      load_env P,
      run P streamlit_app]"

definition run_web_body :: "'x programs \<Rightarrow> ('x sh \<Rightarrow> 'x sh) list" where
  "run_web_body P = [echo web_banner, activate P, env_check] @ run_web_rest P"

text \<open>\<open>start.sh\<close> (\<open>src/unnamed/part_004\<close>).\<close>

definition postgres_answers :: string where
  "postgres_answers =
     ''docker exec fusion_postgres psql -U fusion -d docassistant -c SELECT 1;''"

definition mcp_server :: string where
  "mcp_server = ''python mcp_services/rag_service/server.py''"

definition start_rest :: "'x programs \<Rightarrow> ('x sh \<Rightarrow> 'x sh) list" where
  "start_rest P =
     [echo postgres_checking,
      if_then_else (run P postgres_answers)
        [echo postgres_ok]
        [echo postgres_failed, exit_1],
      if_then_else (have_command P ''docker-compose'')
        [echo redis_starting, run P ''docker-compose up -d redis'', run P ''sleep 3'']
        [echo compose_missing],
      echo rag_starting,
      echo stop_with_ctrl_c,
      echo mcp_server_note,
      run P mcp_server]"

definition start_body :: "'x programs \<Rightarrow> ('x sh \<Rightarrow> 'x sh) list" where
  "start_body P = [echo start_banner, activate P, env_check] @ start_rest P"

text \<open>
  A script is run with its arguments on a machine. None of the scripts reads its
  positional parameters.
\<close>

definition run_web_simple_sh :: "'x programs \<Rightarrow> string list \<Rightarrow> 'x machine \<Rightarrow> 'x sh" where
  "run_web_simple_sh P args m = seq (run_web_simple_body P) (initial args m)"

definition run_web_sh :: "'x programs \<Rightarrow> string list \<Rightarrow> 'x machine \<Rightarrow> 'x sh" where
  "run_web_sh P args m = seq (run_web_body P) (initial args m)"

definition start_sh :: "'x programs \<Rightarrow> string list \<Rightarrow> 'x machine \<Rightarrow> 'x sh" where
  "start_sh P args m = seq (start_body P) (initial args m)"

subsection \<open>The set-up scripts\<close>

text \<open>
  The here-documents of the set-up scripts are texts written to files; nothing
  below depends on what they say, so they are a parameter.
\<close>

record templates =
  env_example :: string
  compose_yml :: string
  requirements_txt :: string
  start_script :: string
  test_script :: string

definition make_directories :: "('x sh \<Rightarrow> 'x sh) list" where
  "make_directories =
     [mkdir_p [''mcp_services/rag_service'', ''mcp_services/file_service'',
               ''mcp_services/tools_service''],
      mkdir_p [''api_gateway/routes'', ''api_gateway/middleware''],
      mkdir_p [''workflows''],
      mkdir_p [''agents''],
      mkdir_p [''frontend''],
      mkdir_p [''docker''],
      mkdir_p [''tests''],
      mkdir_p [''data/uploads'', ''data/vector_db'', ''data/cache'']]"

definition install_packages :: "'x programs \<Rightarrow> ('x sh \<Rightarrow> 'x sh) list" where
  "install_packages P =
     [run P ''pip install --upgrade pip'',
      run P ''pip install fastapi uvicorn[standard]'',
      run P ''pip install mcp langchain langchain-openai chromadb'',
      run P ''pip install langgraph crewai streamlit'',
      run P ''pip install python-multipart aiofiles'',
      run P ''pip install redis asyncpg psycopg2-binary'',
      run P ''pip install prometheus-client python-json-logger'']"

definition create_venv :: string where
  "create_venv = ''python3 -m venv venv''"

text \<open>
  \<open>src/project/setup.sh\<close>: directories, virtual environment, packages, three
  generated files.
\<close>

definition project_setup_body :: "'x programs \<Rightarrow> templates \<Rightarrow> ('x sh \<Rightarrow> 'x sh) list" where
  "project_setup_body P T =
     [echo setup_banner, echo dirs_creating] @ make_directories @
     [echo venv_creating, run P create_venv, activate P, echo packages_installing] @
     install_packages P @
     [echo env_example_creating, write_file ''.env.example'' (env_example T),
      echo compose_creating, write_file ''docker-compose.yml'' (compose_yml T),
      echo requirements_creating, write_file ''requirements.txt'' (requirements_txt T),
      echo setup_done,
      echo [],
      echo project_next_steps,
      echo project_next_copy,
      echo project_next_database,
      echo project_next_activate,
      echo project_next_implement]"

definition project_setup_sh ::
  "'x programs \<Rightarrow> templates \<Rightarrow> string list \<Rightarrow> 'x machine \<Rightarrow> 'x sh" where
  "project_setup_sh P T args m = seq (project_setup_body P T) (initial args m)"

text \<open>
  The set-up script of \<open>src/unnamed/part_003\<close>, in the order of the script: the
  checks of the system, the directories, the virtual environment, the packages, the
  generated files, the copy of \<open>.env.example\<close>, the closing lines.
\<close>

definition check_dependencies :: "'x programs \<Rightarrow> ('x sh \<Rightarrow> 'x sh) list" where
  "check_dependencies P =
     [echo deps_checking,
      if_then_else (negated (have_command P ''python3''))
        [echo python3_missing, exit_1] [],
      if_then_else (negated (run P ''python3 -m venv --help''))
        [echo venv_module_missing, exit_1] [],
      if_then_else (negated (have_command P ''pip3''))
        [echo pip3_missing, exit_1] [],
      echo deps_ok]"

definition renew_venv :: "'x programs \<Rightarrow> ('x sh \<Rightarrow> 'x sh) list" where
  "renew_venv P =
     [if_then_else (test_d ''venv'') [echo venv_cleaning, rm_rf ''venv''] [],
      echo venv_creating,
      run P create_venv,
      if_then_else (test_not_f ''venv/bin/activate'') [echo venv_failed, exit_1] []]"

definition generate_files :: "templates \<Rightarrow> ('x sh \<Rightarrow> 'x sh) list" where
  "generate_files T =
     [echo env_example_creating, write_file ''.env.example'' (env_example T),
      echo compose_creating, write_file ''docker-compose.yml'' (compose_yml T),
      echo requirements_creating, write_file ''requirements.txt'' (requirements_txt T),
      echo start_script_creating, write_file ''start.sh'' (start_script T),
      chmod_x ''start.sh'',
      echo test_script_creating, write_file ''test.py'' (test_script T),
      chmod_x ''test.py'']"

definition copy_env :: "'x sh \<Rightarrow> 'x sh" where
  "copy_env =
     if_then_else (test_not_f ''.env'')
       [cp ''.env.example'' ''.env'', echo env_created]
       [echo env_exists]"

definition closing_lines :: "('x sh \<Rightarrow> 'x sh) list" where
  "closing_lines =
     [echo [], echo setup_done, echo [], echo next_steps,
      echo next_configure, echo next_test, echo next_start]"

definition setup_body :: "'x programs \<Rightarrow> templates \<Rightarrow> ('x sh \<Rightarrow> 'x sh) list" where
  "setup_body P T =
     [echo setup_banner] @ check_dependencies P @
     [echo dirs_creating] @ make_directories @ [mkdir_p [''logs'']] @
     renew_venv P @
     [echo venv_activating, activate P, echo packages_installing] @ install_packages P @
     generate_files T @ [copy_env] @ closing_lines"

definition setup_sh ::
  "'x programs \<Rightarrow> templates \<Rightarrow> string list \<Rightarrow> 'x machine \<Rightarrow> 'x sh" where
  "setup_sh P T args m = seq (setup_body P T) (initial args m)"

subsection \<open>All scripts, and the states around the check of \<open>.env\<close>\<close>

definition all_scripts ::
  "'x programs \<Rightarrow> templates \<Rightarrow> (string list \<Rightarrow> 'x machine \<Rightarrow> 'x sh) list" where
  "all_scripts P T =
     [setup_sh P T, project_setup_sh P T, run_web_simple_sh P, run_web_sh P, start_sh P]"

text \<open>The state of a launch script when it comes to the check.\<close>

definition before_check :: "string \<Rightarrow> 'x programs \<Rightarrow> string list \<Rightarrow> 'x machine \<Rightarrow> 'x sh" where
  "before_check banner P args m = seq [echo banner, activate P] (initial args m)"

text \<open>
  The launch scripts: the final state of a run, the state before the check, and the
  commands after the check.
\<close>

definition launch_scripts ::
  "'x programs \<Rightarrow> string list \<Rightarrow> 'x machine \<Rightarrow>
   ('x sh \<times> 'x sh \<times> ('x sh \<Rightarrow> 'x sh) list) list" where
  "launch_scripts P args m =
     [(run_web_simple_sh P args m, before_check web_simple_banner P args m,
       run_web_simple_rest P),
      (run_web_sh P args m, before_check web_banner P args m, run_web_rest P),
      (start_sh P args m, before_check start_banner P args m, start_rest P)]"

text \<open>
  The two ways out of the check: past it, with nothing printed; or out of the
  script with status 1, after the two lines of the hint.
\<close>

definition passed :: "'x sh \<Rightarrow> 'x sh" where
  "passed s = s\<lparr>trace := trace s @ [Cmd ''grep -q sk- .env''], status := 0\<rparr>"

definition refused :: "'x sh \<Rightarrow> 'x sh" where
  "refused s =
     s\<lparr>trace := trace s @ [Cmd ''grep -q sk- .env'', Echo hint_configure_key,
                             Echo hint_edit_command, Cmd ''exit 1''],
       status := 0, progress := Exited 1\<rparr>"

text \<open>The path names a file, and the content of the file has the substring.\<close>

definition has_substring :: "string \<Rightarrow> node option \<Rightarrow> bool" where
  "has_substring sub n = (\<exists>c pre post. n = Some (File c) \<and> c = pre @ sub @ post)"

definition with_file :: "path \<Rightarrow> string \<Rightarrow> 'x sh \<Rightarrow> 'x sh" where
  "with_file p c s = s\<lparr>machine := (machine s)\<lparr>files := (files (machine s))(p \<mapsto> File c)\<rparr>\<rparr>"

text \<open>The texts echoed before an \<open>exit 1\<close>.\<close>

definition exit_hints :: "string list" where
  "exit_hints =
     [hint_edit_command, postgres_failed, mcp_both_needed,
      python3_missing, venv_module_missing, pip3_missing, venv_failed]"

text \<open>
  The set-up script of \<open>src/unnamed/part_003\<close> around its handling of the virtual
  environment.
\<close>

definition setup_before_venv :: "'x programs \<Rightarrow> ('x sh \<Rightarrow> 'x sh) list" where
  "setup_before_venv P =
     [echo setup_banner] @ check_dependencies P @
     [echo dirs_creating] @ make_directories @ [mkdir_p [''logs'']]"

definition setup_after_venv :: "'x programs \<Rightarrow> templates \<Rightarrow> ('x sh \<Rightarrow> 'x sh) list" where
  "setup_after_venv P T =
     [echo venv_activating, activate P, echo packages_installing] @ install_packages P @
     generate_files T @ [copy_env] @ closing_lines"

text \<open>
  What the set-up needs from the system to run to its end: every program returns,
  \<open>python3\<close>, its \<open>venv\<close> module and \<open>pip3\<close> are there, and
  \<open>python3 -m venv venv\<close> leaves the file \<open>venv/bin/activate\<close>.
\<close>

definition all_return :: "'x programs \<Rightarrow> bool" where
  "all_return P = (\<forall>line m. external P line m \<noteq> None)"

definition well_provided :: "'x programs \<Rightarrow> bool" where
  "well_provided P =
     (all_return P \<and>
      (\<forall>m. command_v P ''python3'' m \<and> command_v P ''pip3'' m) \<and>
      (\<forall>m st m'. external P ''python3 -m venv --help'' m = Some (st, m') \<longrightarrow> st = 0) \<and>
      (\<forall>m st m'. external P create_venv m = Some (st, m') \<longrightarrow>
         is_file (files m' ''venv/bin/activate'')))"

text \<open>No program that the scripts call touches the file \<open>.env\<close>.\<close>

definition leave_dotenv :: "'x programs \<Rightarrow> bool" where
  "leave_dotenv P =
     (\<forall>line m st m'. external P line m = Some (st, m') \<longrightarrow> files m' ''.env'' = files m ''.env'')"

subsection \<open>The checks of prerequisites\<close>

text \<open>
  A script leaves a check whose prerequisite is missing by echoing its hints and
  running \<open>exit 1\<close>.
\<close>

definition hint_and_exit :: "string list \<Rightarrow> 'x sh \<Rightarrow> 'x sh" where
  "hint_and_exit hs s =
     s\<lparr>trace := trace s @ map Echo hs @ [Cmd ''exit 1''], status := 0, progress := Exited 1\<rparr>"

text \<open>
  A check in a run of a script: the run; the state in which the check is reached;
  the state after the command that the check tests; whether it finds the
  prerequisite missing; the state in which the script then leaves; and the state
  and the commands with which the run goes on otherwise.
\<close>

record 'x check =
  outcome :: "'x sh"
  reached :: "'x sh"
  tested :: "'x sh"
  missing :: bool
  leaves :: "'x sh"
  resumes :: "'x sh"
  remaining :: "('x sh \<Rightarrow> 'x sh) list"

text \<open>
  The check that is the command number \<open>k\<close> of a script: the command it tests, what
  counts as missing after it, the hints, and what the check runs itself when the
  prerequisite is there.
\<close>

definition check_at ::
  "'x sh \<Rightarrow> ('x sh \<Rightarrow> 'x sh) list \<Rightarrow> nat \<Rightarrow> ('x sh \<Rightarrow> 'x sh) \<Rightarrow> ('x sh \<Rightarrow> bool) \<Rightarrow>
   string list \<Rightarrow> ('x sh \<Rightarrow> 'x sh) list \<Rightarrow> string list \<Rightarrow> 'x machine \<Rightarrow> 'x check" where
  "check_at run_of body k test miss hs present args m =
     (let b = seq (take k body) (initial args m); t = test b
      in \<lparr>outcome = run_of, reached = b, tested = t, missing = miss t,
          leaves = hint_and_exit hs t, resumes = seq present (t\<lparr>status := 0\<rparr>),
          remaining = drop (Suc k) body\<rparr>)"

text \<open>
  The set-up script of \<open>src/unnamed/part_003\<close> needs \<open>python3\<close>, its \<open>venv\<close>
  module and \<open>pip3\<close>, and, once it has run \<open>python3 -m venv venv\<close>, the file
  \<open>venv/bin/activate\<close>.
\<close>

definition needs_python3 ::
  "'x programs \<Rightarrow> templates \<Rightarrow> string list \<Rightarrow> 'x machine \<Rightarrow> 'x check" where
  "needs_python3 P T args m =
     check_at (setup_sh P T args m) (setup_body P T) 2 (have_command P ''python3'')
       (\<lambda>t. \<not> command_v P ''python3'' (machine t)) [python3_missing] [] args m"

definition needs_venv_module ::
  "'x programs \<Rightarrow> templates \<Rightarrow> string list \<Rightarrow> 'x machine \<Rightarrow> 'x check" where
  "needs_venv_module P T args m =
     check_at (setup_sh P T args m) (setup_body P T) 3 (run P ''python3 -m venv --help'')
       (\<lambda>t. status t \<noteq> 0) [venv_module_missing] [] args m"

definition needs_pip3 ::
  "'x programs \<Rightarrow> templates \<Rightarrow> string list \<Rightarrow> 'x machine \<Rightarrow> 'x check" where
  "needs_pip3 P T args m =
     check_at (setup_sh P T args m) (setup_body P T) 4 (have_command P ''pip3'')
       (\<lambda>t. \<not> command_v P ''pip3'' (machine t)) [pip3_missing] [] args m"

definition needs_activate ::
  "'x programs \<Rightarrow> templates \<Rightarrow> string list \<Rightarrow> 'x machine \<Rightarrow> 'x check" where
  "needs_activate P T args m =
     check_at (setup_sh P T args m) (setup_body P T) 19 (test_not_f ''venv/bin/activate'')
       (\<lambda>t. \<not> is_file (files (machine t) ''venv/bin/activate'')) [venv_failed] [] args m"

text \<open>Each launch script needs a key in \<open>.env\<close>.\<close>

definition needs_key ::
  "'x sh \<Rightarrow> ('x sh \<Rightarrow> 'x sh) list \<Rightarrow> string list \<Rightarrow> 'x machine \<Rightarrow> 'x check" where
  "needs_key run_of body args m =
     check_at run_of body 2 (stderr_to_null (grep_q ''sk-'' ''.env''))
       (\<lambda>t. \<not> has_substring ''sk-'' (files (machine t) ''.env''))
       [hint_configure_key, hint_edit_command] [] args m"

text \<open>\<open>start.sh\<close> needs a PostgreSQL that answers; it says so when it has one.\<close>

definition needs_postgres :: "'x programs \<Rightarrow> string list \<Rightarrow> 'x machine \<Rightarrow> 'x check" where
  "needs_postgres P args m =
     check_at (start_sh P args m) (start_body P) 4 (run P postgres_answers)
       (\<lambda>t. status t \<noteq> 0) [postgres_failed] [echo postgres_ok] args m"

text \<open>
  The web launcher needs the MCP service. When the service is not running it says
  so and asks; it leaves when the answer is not \<open>y\<close> or \<open>Y\<close>, and starts the
  service in the background otherwise.
\<close>

definition needs_mcp :: "'x programs \<Rightarrow> string list \<Rightarrow> 'x machine \<Rightarrow> 'x check" where
  "needs_mcp P args m =
     (let b = seq (take 4 (run_web_body P)) (initial args m);
          t = run P mcp_is_running b;
          a = reply_is_yes
                (echo [] (read_reply P (echo mcp_both_needed (echo mcp_not_running t))))
      in \<lparr>outcome = run_web_sh P args m, reached = b, tested = t,
          missing = (status t \<noteq> 0 \<and> reply a \<noteq> ''y'' \<and> reply a \<noteq> ''Y''),
          leaves = hint_and_exit [] a,
          resumes =
            (if status t = 0 then t\<lparr>status := 0\<rparr>
             else seq [echo mcp_background_starting, background P mcp_in_background,
                       echo_pid P mcp_background_started, run P ''sleep 3''] a),
          remaining = drop 5 (run_web_body P)\<rparr>)"

definition prerequisite_checks ::
  "'x programs \<Rightarrow> templates \<Rightarrow> string list \<Rightarrow> 'x machine \<Rightarrow> 'x check list" where
  "prerequisite_checks P T args m =
     [needs_python3 P T args m, needs_venv_module P T args m, needs_pip3 P T args m,
      needs_activate P T args m,
      needs_key (run_web_simple_sh P args m) (run_web_simple_body P) args m,
      needs_key (run_web_sh P args m) (run_web_body P) args m,
      needs_key (start_sh P args m) (start_body P) args m,
      needs_postgres P args m, needs_mcp P args m]"

text \<open>
  A check does its work in a run that reaches it and whose tested command returns:
  when the prerequisite is missing, the script leaves there, with exit status 1,
  having echoed a hint after the test; when it is there, the run goes on with the
  rest of the script.
\<close>

definition honoured :: "'x check \<Rightarrow> bool" where
  "honoured c =
     (progress (reached c) = Running \<and> progress (tested c) = Running \<longrightarrow>
        (missing c \<longrightarrow>
           outcome c = leaves c \<and> exit_status (outcome c) = Some 1 \<and>
           (\<exists>h \<in> set exit_hints.
              Echo h \<in> set (drop (length (trace (tested c))) (trace (leaves c))))) \<and>
        (\<not> missing c \<longrightarrow> outcome c = seq (remaining c) (resumes c)))"

subsection \<open>Invariants of a run\<close>

text \<open>A command, started in a running state, keeps a property of the state.\<close>

definition preserves :: "('x sh \<Rightarrow> bool) \<Rightarrow> ('x sh \<Rightarrow> 'x sh) \<Rightarrow> bool" where
  "preserves I c = (\<forall>s. progress s = Running \<and> I s \<longrightarrow> I (c s))"

text \<open>A command that does not leave the script.\<close>

definition stays :: "('x sh \<Rightarrow> 'x sh) \<Rightarrow> bool" where
  "stays c = (\<forall>s. progress s = Running \<longrightarrow> progress (c s) = Running \<or> progress (c s) = Hung)"

definition running :: "'x sh \<Rightarrow> bool" where
  "running s = (progress s = Running)"

text \<open>
  The file \<open>.env\<close> holds the given content, and no \<open>cp\<close> onto it has been run.
\<close>

definition kept :: "string \<Rightarrow> 'x sh \<Rightarrow> bool" where
  "kept c s =
     (files (machine s) ''.env'' = Some (File c) \<and>
      Cmd ''cp .env.example .env'' \<notin> set (trace s))"

text \<open>
  A generated file holds the text written to it (the redirection fails when a
  directory is in its place).
\<close>

definition written :: "path \<Rightarrow> string \<Rightarrow> 'x sh \<Rightarrow> bool" where
  "written p text s =
     (files (machine s) p = Some (File text) \<or> files (machine s) p = Some Dir)"

definition never_removed :: "'x sh \<Rightarrow> bool" where
  "never_removed s = (Cmd ''rm -rf venv'' \<notin> set (trace s))"

text \<open>The files that the set-up script of \<open>src/unnamed/part_003\<close> generates.\<close>

definition generated :: "templates \<Rightarrow> (path \<times> string) list" where
  "generated T =
     [(''.env.example'', env_example T), (''docker-compose.yml'', compose_yml T),
      (''requirements.txt'', requirements_txt T), (''start.sh'', start_script T),
      (''test.py'', test_script T)]"

text \<open>A command that neither reads nor changes the positional parameters.\<close>

definition argfree :: "('x sh \<Rightarrow> 'x sh) \<Rightarrow> bool" where
  "argfree c = (\<forall>s a. c (s\<lparr>positional := a\<rparr>) = (c s)\<lparr>positional := a\<rparr>)"

text \<open>
  A run that has left through \<open>exit\<close> has left with status 1, by \<open>exit 1\<close> as its
  last command, after one of the hints.
\<close>

definition hinted_exit :: "'x sh \<Rightarrow> bool" where
  "hinted_exit s =
     (case progress s of
        Exited n \<Rightarrow>
          n = 1 \<and> trace s \<noteq> [] \<and> last (trace s) = Cmd ''exit 1'' \<and>
          list_ex (\<lambda>t. Echo t \<in> set (trace s)) exit_hints
      | _ \<Rightarrow> True)"

subsection \<open>Systems to run the scripts on\<close>

text \<open>
  Programs that all succeed and change nothing; the same with an MCP server that
  cannot be started (\<open>python\<close> exits with status 2 when the file it is given does
  not exist); the same with a database that does not answer; and the same with a
  \<open>python3 -m venv venv\<close> that makes the environment.
\<close>

definition obliging :: "unit programs" where
  "obliging =
     \<lparr>external = (\<lambda>line m. Some (0, m)),
      command_v = (\<lambda>name m. True),
      read_key = (\<lambda>m. (''n'', 0, m)),
      spawn = (\<lambda>line m. m),
      last_pid = (\<lambda>m. ''4242'')\<rparr>"

definition server_missing :: "unit programs" where
  "server_missing =
     obliging\<lparr>external := (\<lambda>line m. if line = mcp_server then Some (2, m) else Some (0, m))\<rparr>"

definition postgres_down :: "unit programs" where
  "postgres_down =
     obliging\<lparr>external := (\<lambda>line m.
        if line = postgres_answers then Some (1, m) else Some (0, m))\<rparr>"

definition installing :: "unit programs" where
  "installing =
     obliging\<lparr>external := (\<lambda>line m.
        if line = create_venv
        then Some (0, m\<lparr>files := (files m)(''venv'' \<mapsto> Dir, ''venv/bin'' \<mapsto> Dir,
                                  ''venv/bin/activate'' \<mapsto> File ''# activate'')\<rparr>)
        else Some (0, m))\<rparr>"

text \<open>Project directories: with a key, with the template only, empty, and with an old
  virtual environment.\<close>

definition configured :: "unit machine" where
  "configured = \<lparr>files = [''.env'' \<mapsto> File ''OPENAI_API_KEY=sk-test''], unseen = ()\<rparr>"

definition unconfigured :: "unit machine" where
  "unconfigured =
     \<lparr>files = [''.env'' \<mapsto> File ''OPENAI_API_KEY=your_openai_api_key_here''], unseen = ()\<rparr>"

definition bare :: "unit machine" where
  "bare = \<lparr>files = Map.empty, unseen = ()\<rparr>"

definition set_up_before :: "unit machine" where
  "set_up_before =
     \<lparr>files = [''venv'' \<mapsto> Dir, ''venv/stale'' \<mapsto> File ''old'',
               ''.env'' \<mapsto> File ''OPENAI_API_KEY=sk-test''],
      unseen = ()\<rparr>"

definition no_templates :: templates where
  "no_templates =
     \<lparr>env_example = ''OPENAI_API_KEY=your_openai_api_key_here'', compose_yml = [],
      requirements_txt = [], start_script = [], test_script = []\<rparr>"

section \<open>Properties of \<open>get_weather\<close>\<close>

lemma weather_data_dom:
  "dom weather_data = {city_beijing, city_shanghai, city_guangzhou}"
  by (auto simp: weather_data_def split: if_splits)

lemma weather_data_values:
  "weather_data city_beijing = Some weather_beijing"
  "weather_data city_shanghai = Some weather_shanghai"
  "weather_data city_guangzhou = Some weather_guangzhou"
  by (simp_all add: weather_data_def city_beijing_def city_shanghai_def city_guangzhou_def)

lemma weather_data_other:
  "city \<notin> {city_beijing, city_shanghai, city_guangzhou} \<Longrightarrow> weather_data city = None"
  using weather_data_dom by blast

text \<open>
  Claim C1. On the input Beijing (code points 5317 4EAC) \<open>get_weather\<close> returns
  exactly the string "sunny, temperature 25 C" of the table, and on every input that
  is not one of the three cities of the table it returns exactly the fixed fallback
  string.
\<close>

theorem get_weather_beijing_and_unknown:
  "get_weather city_beijing w = Returns weather_beijing w \<and>
   (city \<notin> {city_beijing, city_shanghai, city_guangzhou} \<longrightarrow>
      get_weather city w = Returns weather_not_found w)"
  by (simp add: get_weather_def dict_get_def weather_data_values weather_data_other)

text \<open>The claim at the city Shenzhen (code points 6DF1 5733), which is not in the table.\<close>

theorem get_weather_beijing_and_unknown_witness:
  "[0x6DF1, 0x5733] \<notin> {city_beijing, city_shanghai, city_guangzhou} \<and>
   get_weather city_beijing () = Returns weather_beijing () \<and>
   get_weather [0x6DF1, 0x5733] () = Returns weather_not_found ()"
proof -
  have out: "[0x6DF1, 0x5733] \<notin> {city_beijing, city_shanghai, city_guangzhou}"
    by (simp add: city_beijing_def city_shanghai_def city_guangzhou_def)
  from get_weather_beijing_and_unknown [of "()" "[0x6DF1, 0x5733]"] out
  show ?thesis by simp
qed

text \<open>
  Claim C8. \<open>get_weather\<close> is total: it returns on every input, in every state.
  The table has exactly the three keys Beijing, Shanghai and Guangzhou; Shanghai is
  mapped to "cloudy, temperature 22 C", Guangzhou to "light rain, temperature 28 C",
  every input outside the table to the fallback string; and the strings it can
  return are exactly the three table entries and the fallback.
\<close>

theorem get_weather_total_four_strings:
  "(\<exists>r. get_weather city w = Returns r w) \<and>
   dom weather_data = {city_beijing, city_shanghai, city_guangzhou} \<and>
   get_weather city_beijing w = Returns weather_beijing w \<and>
   get_weather city_shanghai w = Returns weather_shanghai w \<and>
   get_weather city_guangzhou w = Returns weather_guangzhou w \<and>
   (city \<notin> {city_beijing, city_shanghai, city_guangzhou} \<longrightarrow>
      get_weather city w = Returns weather_not_found w) \<and>
   {r. \<exists>c. get_weather c w = Returns r w} =
     {weather_beijing, weather_shanghai, weather_guangzhou, weather_not_found}"
proof -
  have total: "\<exists>r. get_weather city w = Returns r w"
    by (simp add: get_weather_def)
  have known: "get_weather city_beijing w = Returns weather_beijing w"
    "get_weather city_shanghai w = Returns weather_shanghai w"
    "get_weather city_guangzhou w = Returns weather_guangzhou w"
    by (simp_all add: get_weather_def dict_get_def weather_data_values)
  have unknown: "get_weather c w = Returns weather_not_found w"
    if "c \<notin> {city_beijing, city_shanghai, city_guangzhou}" for c
    using that by (simp add: get_weather_def dict_get_def weather_data_other)
  have fresh: "[] \<notin> {city_beijing, city_shanghai, city_guangzhou}"
    by (simp add: city_beijing_def city_shanghai_def city_guangzhou_def)
  have range: "{r. \<exists>c. get_weather c w = Returns r w} =
     {weather_beijing, weather_shanghai, weather_guangzhou, weather_not_found}"
  proof (intro set_eqI iffI)
    fix r assume "r \<in> {r. \<exists>c. get_weather c w = Returns r w}"
    then obtain c where c: "get_weather c w = Returns r w" by blast
    show "r \<in> {weather_beijing, weather_shanghai, weather_guangzhou, weather_not_found}"
    proof (cases "c \<in> {city_beijing, city_shanghai, city_guangzhou}")
      case True
      with c known show ?thesis by auto
    next
      case False
      with c unknown [of c] show ?thesis by simp
    qed
  next
    fix r assume "r \<in> {weather_beijing, weather_shanghai, weather_guangzhou, weather_not_found}"
    then consider "r = weather_beijing" | "r = weather_shanghai" | "r = weather_guangzhou"
      | "r = weather_not_found" by blast
    then show "r \<in> {r. \<exists>c. get_weather c w = Returns r w}"
    proof cases
      case 1 with known(1) show ?thesis by blast
    next
      case 2 with known(2) show ?thesis by blast
    next
      case 3 with known(3) show ?thesis by blast
    next
      case 4 with unknown [OF fresh] show ?thesis by blast
    qed
  qed
  from total weather_data_dom known unknown range show ?thesis by blast
qed

text \<open>The claim at the empty city name, which is not in the table.\<close>

theorem get_weather_total_four_strings_witness:
  "[] \<notin> {city_beijing, city_shanghai, city_guangzhou} \<and>
   get_weather [] () = Returns weather_not_found () \<and>
   get_weather city_shanghai () = Returns weather_shanghai () \<and>
   get_weather city_guangzhou () = Returns weather_guangzhou ()"
proof -
  have out: "[] \<notin> {city_beijing, city_shanghai, city_guangzhou}"
    by (simp add: city_beijing_def city_shanghai_def city_guangzhou_def)
  from get_weather_total_four_strings [of "[]" "()"] out
  show ?thesis by simp
qed

section \<open>Properties of \<open>calculator\<close>\<close>

subsection \<open>What the function does with the outcomes of the runtime\<close>











lemma raised_by_format:
  "py_eval P x w = Returns v w0 \<Longrightarrow> py_format P v w0 = Raises e w1 \<Longrightarrow>
   raised_in_try P x w e w1"
  by (auto simp: raised_in_try_def)

subsection \<open>On the fragment\<close>

















section \<open>Effects of the two tool functions\<close>





section \<open>Properties of the shell scripts\<close>

subsection \<open>Sequences of commands\<close>

lemma seq_stopped: "progress s \<noteq> Running \<Longrightarrow> seq cs s = s"
  by (cases cs) simp_all

lemma seq_append: "seq (as @ bs) s = seq bs (seq as s)"
proof (induction as arbitrary: s)
  case Nil
  show ?case by simp
next
  case (Cons a as)
  show ?case
  proof (cases "progress s = Running")
    case True
    with Cons show ?thesis by simp
  next
    case False
    then show ?thesis by (simp add: seq_stopped)
  qed
qed

subsection \<open>\<open>grep -q\<close> and substrings\<close>

lemma starts_with_iff: "starts_with pat s \<longleftrightarrow> (\<exists>post. s = pat @ post)"
  by (induction pat s rule: starts_with.induct) auto

lemma contains_iff: "contains pat s \<longleftrightarrow> (\<exists>pre post. s = pre @ pat @ post)"
proof (induction s)
  case Nil
  show ?case by auto
next
  case (Cons c cs)
  show ?case
  proof
    assume "contains pat (c # cs)"
    then consider "starts_with pat (c # cs)" | "contains pat cs" by auto
    then show "\<exists>pre post. c # cs = pre @ pat @ post"
    proof cases
      case 1
      then obtain post where "c # cs = pat @ post" by (auto simp: starts_with_iff)
      then have "c # cs = [] @ pat @ post" by simp
      then show ?thesis by blast
    next
      case 2
      with Cons obtain pre post where "cs = pre @ pat @ post" by blast
      then have "c # cs = (c # pre) @ pat @ post" by simp
      then show ?thesis by blast
    qed
  next
    assume "\<exists>pre post. c # cs = pre @ pat @ post"
    then obtain pre post where eq: "c # cs = pre @ pat @ post" by blast
    show "contains pat (c # cs)"
    proof (cases pre)
      case Nil
      with eq have "starts_with pat (c # cs)" by (auto simp: starts_with_iff)
      then show ?thesis by simp
    next
      case (Cons p pre')
      with eq have "cs = pre' @ pat @ post" by simp
      with Cons.IH show ?thesis by auto
    qed
  qed
qed

lemma starts_with_before_newline:
  "nl \<notin> set pat \<Longrightarrow> starts_with pat (a @ nl # b) = starts_with pat a"
  by (induction pat a rule: starts_with.induct) (auto simp: neq_Nil_conv)

lemma contains_across_newline:
  assumes "nl \<notin> set pat" "pat \<noteq> []"
  shows "contains pat (a @ nl # b) = (contains pat a \<or> contains pat b)"
proof (induction a)
  case Nil
  from assms obtain p ps where pat: "pat = p # ps" by (cases pat) auto
  with assms have "p \<noteq> nl" by auto
  with pat assms show ?case by simp
next
  case (Cons x a)
  have "starts_with pat (x # a @ nl # b) = starts_with pat (x # a)"
    using starts_with_before_newline [OF assms(1), of "x # a" b] by simp
  with Cons show ?case by auto
qed

lemma lines_of_contains:
  assumes "CHR 0x0A \<notin> set pat" "pat \<noteq> []"
  shows "list_ex (contains pat) (lines_of cur cs) = contains pat (cur @ cs)"
proof (induction cs arbitrary: cur)
  case Nil
  from assms show ?case by (cases cur) auto
next
  case (Cons c cs)
  show ?case
  proof (cases "c = CHR 0x0A")
    case True
    with Cons [of "[]"] contains_across_newline [OF assms, of cur cs]
    show ?thesis by simp
  next
    case False
    with Cons [of "cur @ [c]"] show ?thesis by simp
  qed
qed

lemma grep_status_zero:
  assumes "CHR 0x0A \<notin> set pat" "pat \<noteq> []"
  shows "grep_status pat n = 0 \<longleftrightarrow> has_substring pat n"
proof (cases n)
  case None
  then show ?thesis by (simp add: grep_status_def has_substring_def)
next
  case (Some nd)
  show ?thesis
  proof (cases nd)
    case (File c)
    with Some lines_of_contains [OF assms, of "[]" c] show ?thesis
      by (simp add: grep_status_def has_substring_def contains_iff)
  next
    case Dir
    with Some show ?thesis by (simp add: grep_status_def has_substring_def)
  qed
qed

lemma grep_sk: "grep_status ''sk-'' n = 0 \<longleftrightarrow> has_substring ''sk-'' n"
  by (rule grep_status_zero) simp_all

subsection \<open>The check of \<open>.env\<close>\<close>

lemma on_stderr_simps [simp]:
  "on_stderr (Stderr t) = True" "on_stderr (Cmd t) = False" "on_stderr (Echo t) = False"
  by (simp_all add: on_stderr_def)

lemma filter_complaint: "filter (\<lambda>e. \<not> on_stderr e) (grep_complaint p n) = []"
  by (simp add: grep_complaint_def split: option.splits node.splits)

lemma quiet_grep:
  "stderr_to_null (grep_q pat p) s =
   s\<lparr>trace := trace s @ [Cmd (''grep -q '' @ pat @ '' '' @ p)],
     status := grep_status pat (files (machine s) p)\<rparr>"
  by (simp add: stderr_to_null_def grep_q_def Let_def filter_complaint)

lemma env_check_passed:
  "progress s = Running \<Longrightarrow> has_substring ''sk-'' (files (machine s) ''.env'') \<Longrightarrow>
   env_check s = passed s"
  by (simp add: env_check_def if_then_else_def negated_def quiet_grep grep_sk passed_def)

lemma env_check_refused:
  "progress s = Running \<Longrightarrow> \<not> has_substring ''sk-'' (files (machine s) ''.env'') \<Longrightarrow>
   env_check s = refused s"
  by (simp add: env_check_def if_then_else_def negated_def quiet_grep grep_sk refused_def
      echo_def exit_1_def)


lemma seq_step:
  "seq (cs @ c # rest) s =
   (let s0 = seq cs s in if progress s0 = Running then seq rest (c s0) else s0)"
  by (simp add: seq_append Let_def seq_stopped)

lemma launch_decompose:
  "seq (echo b # activate P # env_check # rest) (initial args m) =
   (let s0 = before_check b P args m
    in if progress s0 = Running then seq rest (env_check s0) else s0)"
proof -
  have "seq (echo b # activate P # env_check # rest) (initial args m) =
      seq ([echo b, activate P] @ env_check # rest) (initial args m)"
    by simp
  also have "\<dots> = (let s0 = seq [echo b, activate P] (initial args m)
      in if progress s0 = Running then seq rest (env_check s0) else s0)"
    by (rule seq_step)
  finally show ?thesis by (simp only: before_check_def)
qed

lemma launch_scripts_final:
  assumes "(final, s0, rest) \<in> set (launch_scripts P args m)" "progress s0 = Running"
  shows "final = seq rest (env_check s0)"
  using assms
  by (auto simp add: launch_scripts_def run_web_simple_sh_def run_web_sh_def start_sh_def
      run_web_simple_body_def run_web_body_def start_body_def launch_decompose Let_def
      simp del: seq.simps)

lemma refused_stops: "seq rest (refused s) = refused s"
  by (rule seq_stopped) (simp add: refused_def)

lemma exit_status_refused: "exit_status (refused s) = Some 1"
  by (simp add: exit_status_def refused_def)

text \<open>
  Claim C5. In each of the three launch scripts, once the activation script has been
  sourced, the run goes past the check of \<open>.env\<close> exactly when \<open>.env\<close> is a file
  whose content has the substring \<open>sk-\<close>, whatever the content is. When it has,
  the check prints nothing and the rest of the script runs; when it has not, the run
  ends there: the script has printed the two lines of the hint and exits with
  status 1.
\<close>

theorem launch_scripts_check_key:
  "\<forall>(final, s0, rest) \<in> set (launch_scripts P args m).
     progress s0 = Running \<longrightarrow>
       final = seq rest (env_check s0) \<and>
       (progress (env_check s0) = Running) =
         has_substring ''sk-'' (files (machine s0) ''.env'') \<and>
       (has_substring ''sk-'' (files (machine s0) ''.env'') \<longrightarrow> env_check s0 = passed s0) \<and>
       (\<not> has_substring ''sk-'' (files (machine s0) ''.env'') \<longrightarrow>
          final = refused s0 \<and> exit_status final = Some 1)"
proof (intro ballI, clarify)
  fix final s0 rest
  assume mem: "(final, s0, rest) \<in> set (launch_scripts P args m)"
    and run: "progress s0 = Running"
  have final: "final = seq rest (env_check s0)"
    using mem run by (rule launch_scripts_final)
  show "final = seq rest (env_check s0) \<and>
       (progress (env_check s0) = Running) =
         has_substring ''sk-'' (files (machine s0) ''.env'') \<and>
       (has_substring ''sk-'' (files (machine s0) ''.env'') \<longrightarrow> env_check s0 = passed s0) \<and>
       (\<not> has_substring ''sk-'' (files (machine s0) ''.env'') \<longrightarrow>
          final = refused s0 \<and> exit_status final = Some 1)"
  proof (cases "has_substring ''sk-'' (files (machine s0) ''.env'')")
    case True
    with run have "env_check s0 = passed s0" by (simp add: env_check_passed)
    with True run final show ?thesis by (simp add: passed_def)
  next
    case False
    with run have "env_check s0 = refused s0" by (simp add: env_check_refused)
    with False final show ?thesis
      by (simp add: refused_stops exit_status_refused) (simp add: refused_def)
  qed
qed

lemma before_check_obliging:
  "before_check b obliging args m =
   \<lparr>machine = m, positional = args, trace = [Echo b, Cmd ''source venv/bin/activate''],
    status = 0, progress = Running, reply = []\<rparr>"
  by (simp add: before_check_def initial_def echo_def activate_def run_def obliging_def)

lemma key_configured: "has_substring ''sk-'' (files configured ''.env'')"
  unfolding grep_sk [symmetric] by (simp add: configured_def grep_status_def)

lemma key_unconfigured: "\<not> has_substring ''sk-'' (files unconfigured ''.env'')"
  unfolding grep_sk [symmetric] by (simp add: unconfigured_def grep_status_def)

text \<open>
  The claim on \<open>start.sh\<close>, with a \<open>.env\<close> that holds a key and with one that
  holds the placeholder of the template.
\<close>

theorem launch_scripts_check_key_witness:
  "progress (env_check (before_check start_banner obliging [] configured)) = Running \<and>
   exit_status (start_sh obliging [] unconfigured) = Some 1 \<and>
   trace (start_sh obliging [] unconfigured) =
     [Echo start_banner, Cmd ''source venv/bin/activate'', Cmd ''grep -q sk- .env'',
      Echo hint_configure_key, Echo hint_edit_command, Cmd ''exit 1'']"
proof -
  have a: "(start_sh obliging [] configured, before_check start_banner obliging [] configured,
      start_rest obliging) \<in> set (launch_scripts obliging [] configured)"
    by (simp add: launch_scripts_def)
  have b: "(start_sh obliging [] unconfigured,
      before_check start_banner obliging [] unconfigured,
      start_rest obliging) \<in> set (launch_scripts obliging [] unconfigured)"
    by (simp add: launch_scripts_def)
  from launch_scripts_check_key [of obliging "[]" configured] a key_configured
  have "progress (env_check (before_check start_banner obliging [] configured)) = Running"
    by (auto simp: before_check_obliging)
  moreover
  from launch_scripts_check_key [of obliging "[]" unconfigured] b key_unconfigured
  have "start_sh obliging [] unconfigured =
      refused (before_check start_banner obliging [] unconfigured) \<and>
    exit_status (start_sh obliging [] unconfigured) = Some 1"
    by (auto simp: before_check_obliging)
  ultimately show ?thesis by (simp add: refused_def before_check_obliging exit_status_def)
qed

subsection \<open>A missing \<open>.env\<close>\<close>

lemma grep_complains_missing:
  "filter on_stderr (trace (grep_q pat p s)) \<noteq> filter on_stderr (trace s)"
  if "files (machine s) p = None"
  using that by (simp add: grep_q_def grep_complaint_def)

lemma env_check_no_stderr:
  "progress s = Running \<Longrightarrow>
   filter on_stderr (trace (env_check s)) = filter on_stderr (trace s)"
  by (cases "has_substring ''sk-'' (files (machine s) ''.env'')")
    (simp_all add: env_check_passed env_check_refused passed_def refused_def)

lemma no_key_missing: "\<not> has_substring sub None"
  by (simp add: has_substring_def)

text \<open>
  Claim C10. When there is no \<open>.env\<close> at all at the check, each launch script
  ends as it does for a \<open>.env\<close> without the substring \<open>sk-\<close>: it prints the two
  lines of the hint and exits with status 1. \<open>grep\<close> does write a complaint to the
  standard error, and none of it reaches the output of the script. Put any content
  without the substring into \<open>.env\<close>: the check leaves the same output, the same
  status and the same exit.
\<close>

theorem missing_dotenv_like_unconfigured:
  "\<forall>(final, s0, rest) \<in> set (launch_scripts P args m).
     progress s0 = Running \<and> files (machine s0) ''.env'' = None \<longrightarrow>
       final = refused s0 \<and> exit_status final = Some 1 \<and>
       filter on_stderr (trace (grep_q ''sk-'' ''.env'' s0)) \<noteq> filter on_stderr (trace s0) \<and>
       filter on_stderr (trace final) = filter on_stderr (trace s0) \<and>
       (\<forall>c. \<not> has_substring ''sk-'' (Some (File c)) \<longrightarrow>
          env_check (with_file ''.env'' c s0) = refused (with_file ''.env'' c s0) \<and>
          trace (env_check (with_file ''.env'' c s0)) = trace final \<and>
          progress (env_check (with_file ''.env'' c s0)) = progress final \<and>
          status (env_check (with_file ''.env'' c s0)) = status final)"
proof (intro ballI, clarify)
  fix final s0 rest
  assume mem: "(final, s0, rest) \<in> set (launch_scripts P args m)"
    and run: "progress s0 = Running"
    and missing: "files (machine s0) ''.env'' = None"
  have check: "env_check s0 = refused s0"
    using run missing by (simp add: env_check_refused no_key_missing)
  have final: "final = refused s0"
    using launch_scripts_final [OF mem run] check by (simp add: refused_stops)
  have other: "env_check (with_file ''.env'' c s0) = refused (with_file ''.env'' c s0)"
    if "\<not> has_substring ''sk-'' (Some (File c))" for c
    using that run by (intro env_check_refused) (simp_all add: with_file_def)
  show "final = refused s0 \<and> exit_status final = Some 1 \<and>
       filter on_stderr (trace (grep_q ''sk-'' ''.env'' s0)) \<noteq> filter on_stderr (trace s0) \<and>
       filter on_stderr (trace final) = filter on_stderr (trace s0) \<and>
       (\<forall>c. \<not> has_substring ''sk-'' (Some (File c)) \<longrightarrow>
          env_check (with_file ''.env'' c s0) = refused (with_file ''.env'' c s0) \<and>
          trace (env_check (with_file ''.env'' c s0)) = trace final \<and>
          progress (env_check (with_file ''.env'' c s0)) = progress final \<and>
          status (env_check (with_file ''.env'' c s0)) = status final)"
    using final grep_complains_missing [OF missing] other
    by (simp add: exit_status_refused) (simp add: refused_def with_file_def)
qed

text \<open>
  The claim on the web launcher, in an empty directory; its output is that of the
  run with the unconfigured \<open>.env\<close>.
\<close>

theorem missing_dotenv_like_unconfigured_witness:
  "files bare ''.env'' = None \<and>
   exit_status (run_web_sh obliging [] bare) = Some 1 \<and>
   trace (run_web_sh obliging [] bare) =
     [Echo web_banner, Cmd ''source venv/bin/activate'', Cmd ''grep -q sk- .env'',
      Echo hint_configure_key, Echo hint_edit_command, Cmd ''exit 1''] \<and>
   trace (run_web_sh obliging [] bare) = trace (run_web_sh obliging [] unconfigured)"
proof -
  have a: "(run_web_sh obliging [] bare, before_check web_banner obliging [] bare,
      run_web_rest obliging) \<in> set (launch_scripts obliging [] bare)"
    by (simp add: launch_scripts_def)
  have b: "(run_web_sh obliging [] unconfigured,
      before_check web_banner obliging [] unconfigured,
      run_web_rest obliging) \<in> set (launch_scripts obliging [] unconfigured)"
    by (simp add: launch_scripts_def)
  have missing: "files bare ''.env'' = None" by (simp add: bare_def)
  from missing_dotenv_like_unconfigured [of obliging "[]" bare] a missing
  have "run_web_sh obliging [] bare = refused (before_check web_banner obliging [] bare)"
    by (auto simp: before_check_obliging)
  moreover
  have "run_web_sh obliging [] unconfigured =
      refused (before_check web_banner obliging [] unconfigured)"
    using launch_scripts_final [OF b] key_unconfigured
    by (simp add: before_check_obliging env_check_refused refused_stops)
  ultimately show ?thesis
    using missing by (simp add: refused_def before_check_obliging exit_status_def)
qed

subsection \<open>Invariants of a sequence of commands\<close>

lemma preservesI: "(\<And>s. progress s = Running \<Longrightarrow> I s \<Longrightarrow> I (c s)) \<Longrightarrow> preserves I c"
  by (simp add: preserves_def)

lemma preservesD: "preserves I c \<Longrightarrow> progress s = Running \<Longrightarrow> I s \<Longrightarrow> I (c s)"
  by (simp add: preserves_def)

lemma seq_preserves: "list_all (preserves I) cs \<Longrightarrow> I s \<Longrightarrow> I (seq cs s)"
proof (induction cs arbitrary: s)
  case Nil
  then show ?case by simp
next
  case (Cons c cs)
  show ?case
  proof (cases "progress s = Running")
    case True
    with Cons.prems have "I (c s)" by (simp add: preservesD)
    with Cons True show ?thesis by simp
  next
    case False
    with Cons.prems show ?thesis by simp
  qed
qed

lemma preserves_seq: "list_all (preserves I) cs \<Longrightarrow> preserves I (seq cs)"
  by (rule preservesI) (rule seq_preserves)

lemma preserves_if:
  assumes "preserves I c" "preserves I (seq thn)" "preserves I (seq els)"
    and "\<And>s. I s \<Longrightarrow> I (s\<lparr>status := 0\<rparr>)"
  shows "preserves I (if_then_else c thn els)"
proof (rule preservesI)
  fix s :: "'a sh"
  assume s: "progress s = Running" "I s"
  with assms(1) have c: "I (c s)" by (simp add: preservesD)
  show "I (if_then_else c thn els s)"
  proof (cases "progress (c s) = Running")
    case True
    from c assms(4) have "I ((c s)\<lparr>status := 0\<rparr>)" by simp
    with True c assms(2,3) show ?thesis
      by (simp add: if_then_else_def Let_def preservesD)
  next
    case False
    with c show ?thesis by (simp add: if_then_else_def Let_def)
  qed
qed

lemma preserves_negated:
  assumes "preserves I c" "\<And>s v. I s \<Longrightarrow> I (s\<lparr>status := v\<rparr>)"
  shows "preserves I (negated c)"
proof (rule preservesI)
  fix s :: "'a sh"
  assume "progress s = Running" "I s"
  with assms(1) have "I (c s)" by (simp add: preservesD)
  with assms(2) show "I (negated c s)" by (simp add: negated_def Let_def)
qed

subsection \<open>Commands that stay in the script\<close>

lemma stays_commands:
  "stays (echo t)" "stays (run P line)" "stays (have_command P name)"
  "stays (test_d p)" "stays (test_not_f p)" "stays (mkdir_p ps)" "stays (rm_rf p)"
  "stays (write_file p text)" "stays (cp src dst)" "stays (chmod_x p)"
  "stays (read_reply P)" "stays reply_is_yes" "stays (background P line)"
  "stays (echo_pid P f)" "stays (activate P)" "stays (load_env P)"
  by (simp_all add: stays_def echo_def run_def have_command_def test_d_def test_not_f_def
      mkdir_p_def rm_rf_def write_file_def cp_def chmod_x_def read_reply_def reply_is_yes_def
      background_def echo_pid_def activate_def load_env_def Let_def
      split: option.splits prod.splits node.splits)

lemma stays_negated: "stays c \<Longrightarrow> stays (negated c)"
  by (auto simp: stays_def negated_def Let_def)

lemma seq_stays: "list_all stays cs \<Longrightarrow> progress s \<noteq> Running \<or> progress (seq cs s) = Running \<or> progress (seq cs s) = Hung"
proof (induction cs arbitrary: s)
  case Nil
  then show ?case by simp
next
  case (Cons c cs)
  show ?case
  proof (cases "progress s = Running")
    case True
    with Cons.prems have "progress (c s) = Running \<or> progress (c s) = Hung"
      by (simp add: stays_def)
    then show ?thesis
    proof
      assume "progress (c s) = Running"
      with Cons True show ?thesis by auto
    next
      assume "progress (c s) = Hung"
      with True show ?thesis by (simp add: seq_stopped)
    qed
  next
    case False
    then show ?thesis by simp
  qed
qed

lemma stays_seq: "list_all stays cs \<Longrightarrow> stays (seq cs)"
  using seq_stays by (fastforce simp: stays_def)

lemma stays_if: "stays c \<Longrightarrow> list_all stays thn \<Longrightarrow> list_all stays els \<Longrightarrow> stays (if_then_else c thn els)"
proof -
  assume c: "stays c" and thn: "list_all stays thn" and els: "list_all stays els"
  show ?thesis
    unfolding stays_def
  proof (intro allI impI)
    fix s :: "'a sh"
    assume s: "progress s = Running"
    with c have cs: "progress (c s) = Running \<or> progress (c s) = Hung" by (simp add: stays_def)
    show "progress (if_then_else c thn els s) = Running \<or> progress (if_then_else c thn els s) = Hung"
    proof (cases "progress (c s) = Running")
      case True
      with seq_stays [OF thn, of "c s"] seq_stays [OF els, of "(c s)\<lparr>status := 0\<rparr>"]
      show ?thesis by (simp add: if_then_else_def Let_def)
    next
      case False
      with cs show ?thesis by (simp add: if_then_else_def Let_def)
    qed
  qed
qed

lemma stays_hinted: "stays c \<Longrightarrow> preserves hinted_exit c"
  by (rule preservesI) (auto simp: stays_def hinted_exit_def)

lemma hinted_status: "hinted_exit (s\<lparr>status := v\<rparr>) = hinted_exit s"
  by (simp add: hinted_exit_def split: progress.splits)

lemma hinted_branch:
  "t \<in> set exit_hints \<Longrightarrow> preserves hinted_exit (seq [echo t, exit_1])"
  by (rule preservesI) (auto simp: hinted_exit_def echo_def exit_1_def list_ex_iff)

lemma hinted_env_check: "preserves hinted_exit env_check"
proof (rule preservesI)
  fix s :: "'a sh"
  assume s: "progress s = Running"
  show "hinted_exit (env_check s)"
  proof (cases "has_substring ''sk-'' (files (machine s) ''.env'')")
    case True
    with s show ?thesis by (simp add: env_check_passed passed_def hinted_exit_def)
  next
    case False
    with s show ?thesis
      by (simp add: env_check_refused refused_def hinted_exit_def exit_hints_def)
  qed
qed


lemma hinted_decline:
  "preserves hinted_exit
     (seq [echo mcp_not_running, echo mcp_both_needed, read_reply P, echo [],
           if_then_else reply_is_yes
             [echo mcp_background_starting, background P mcp_in_background,
              echo_pid P mcp_background_started, run P ''sleep 3'']
             [exit_1]])"
proof (rule preservesI)
  fix s :: "'a sh"
  assume s: "progress s = Running"
  let ?yes = "[echo mcp_background_starting, background P mcp_in_background,
              echo_pid P mcp_background_started, run P ''sleep 3'']"
  let ?s4 = "echo [] (read_reply P (echo mcp_both_needed (echo mcp_not_running s)))"
  have run4: "progress ?s4 = Running"
    using s by (simp add: echo_def read_reply_def split: prod.splits)
  have shown: "Echo mcp_both_needed \<in> set (trace ?s4)"
    by (simp add: echo_def read_reply_def split: prod.splits)
  have step: "seq [echo mcp_not_running, echo mcp_both_needed, read_reply P, echo [],
      if_then_else reply_is_yes ?yes [exit_1]] s = if_then_else reply_is_yes ?yes [exit_1] ?s4"
    using s by (simp add: echo_def read_reply_def split: prod.splits)
  have "hinted_exit (if_then_else reply_is_yes ?yes [exit_1] ?s4)"
  proof (cases "status (reply_is_yes ?s4) = 0")
    case True
    have "list_all stays ?yes" by (simp add: stays_commands)
    from seq_stays [OF this, of "reply_is_yes ?s4"] True run4 show ?thesis
      by (auto simp: if_then_else_def Let_def reply_is_yes_def hinted_exit_def)
  next
    case False
    with run4 shown show ?thesis
      by (simp add: if_then_else_def Let_def reply_is_yes_def exit_1_def hinted_exit_def
          exit_hints_def)
  qed
  with step show "hinted_exit (seq [echo mcp_not_running, echo mcp_both_needed, read_reply P,
      echo [], if_then_else reply_is_yes ?yes [exit_1]] s)"
    by simp
qed

lemmas hinted_rules =
  preserves_if preserves_negated preserves_seq stays_hinted stays_commands stays_negated
  hinted_status hinted_branch hinted_env_check hinted_decline

lemma hinted_launch:
  "list_all (preserves hinted_exit) (run_web_simple_body P)"
  "list_all (preserves hinted_exit) (run_web_body P)"
  "list_all (preserves hinted_exit) (start_body P)"
  by (simp_all add: run_web_simple_body_def run_web_simple_rest_def run_web_body_def
      run_web_rest_def start_body_def start_rest_def hinted_rules exit_hints_def)

lemma hinted_setup:
  "list_all (preserves hinted_exit) (project_setup_body P T)"
  "list_all (preserves hinted_exit) (setup_body P T)"
  by (simp_all add: project_setup_body_def setup_body_def check_dependencies_def
      make_directories_def renew_venv_def install_packages_def generate_files_def
      copy_env_def closing_lines_def hinted_rules exit_hints_def)


subsection \<open>The positional parameters\<close>

lemma argfree_commands:
  "argfree (echo t)" "argfree exit_1" "argfree (run P line)" "argfree (have_command P name)"
  "argfree (test_d p)" "argfree (test_not_f p)" "argfree (mkdir_p ps)" "argfree (rm_rf p)"
  "argfree (write_file p text)" "argfree (cp src dst)" "argfree (chmod_x p)"
  "argfree (read_reply P)" "argfree reply_is_yes" "argfree (background P line)"
  "argfree (echo_pid P f)" "argfree (activate P)" "argfree (load_env P)"
  "argfree (grep_q pat p)"
  by (simp_all add: argfree_def echo_def exit_1_def run_def have_command_def test_d_def
      test_not_f_def mkdir_p_def rm_rf_def write_file_def cp_def chmod_x_def read_reply_def
      reply_is_yes_def background_def echo_pid_def activate_def load_env_def grep_q_def Let_def
      split: option.splits prod.splits node.splits)

lemma argfree_negated: "argfree c \<Longrightarrow> argfree (negated c)"
  by (simp add: argfree_def negated_def Let_def)

lemma argfree_stderr_to_null: "argfree c \<Longrightarrow> argfree (stderr_to_null c)"
  by (simp add: argfree_def stderr_to_null_def Let_def)

lemma seq_argfree:
  "list_all argfree cs \<Longrightarrow> seq cs (s\<lparr>positional := a\<rparr>) = (seq cs s)\<lparr>positional := a\<rparr>"
proof (induction cs arbitrary: s)
  case Nil
  show ?case by simp
next
  case (Cons c cs)
  then have "c (s\<lparr>positional := a\<rparr>) = (c s)\<lparr>positional := a\<rparr>"
    by (simp add: argfree_def)
  with Cons show ?case by simp
qed

lemma argfree_seq: "list_all argfree cs \<Longrightarrow> argfree (seq cs)"
  by (simp add: argfree_def seq_argfree)

lemma argfree_if:
  assumes "argfree c" "list_all argfree thn" "list_all argfree els"
  shows "argfree (if_then_else c thn els)"
  unfolding argfree_def
proof (intro allI)
  fix s :: "'a sh" and a
  have c: "c (s\<lparr>positional := a\<rparr>) = (c s)\<lparr>positional := a\<rparr>"
    using assms(1) by (simp add: argfree_def)
  have swap: "(c s)\<lparr>positional := a, status := 0\<rparr> = ((c s)\<lparr>status := 0\<rparr>)\<lparr>positional := a\<rparr>"
    by simp
  show "if_then_else c thn els (s\<lparr>positional := a\<rparr>) =
      (if_then_else c thn els s)\<lparr>positional := a\<rparr>"
    unfolding if_then_else_def Let_def c
    by (simp add: seq_argfree [OF assms(2)] swap seq_argfree [OF assms(3)] del: seq.simps)
qed

lemmas argfree_rules =
  argfree_commands argfree_negated argfree_stderr_to_null argfree_if

lemma argfree_bodies:
  "list_all argfree (run_web_simple_body P)"
  "list_all argfree (run_web_body P)"
  "list_all argfree (start_body P)"
  "list_all argfree (project_setup_body P T)"
  "list_all argfree (setup_body P T)"
  by (simp_all add: run_web_simple_body_def run_web_simple_rest_def run_web_body_def
      run_web_rest_def start_body_def start_rest_def env_check_def
      project_setup_body_def setup_body_def check_dependencies_def
      make_directories_def renew_venv_def install_packages_def generate_files_def
      copy_env_def closing_lines_def argfree_rules)

lemma initial_args: "initial a m = (initial b m)\<lparr>positional := a\<rparr>"
  by (simp add: initial_def)

lemma script_ignores_args:
  "list_all argfree body \<Longrightarrow>
   seq body (initial a m) = (seq body (initial b m))\<lparr>positional := a\<rparr>"
  by (subst initial_args [of a m b]) (rule seq_argfree)

subsection \<open>The status of the last command\<close>

lemma seq_last:
  "seq (cs @ [c]) s = (let s1 = seq cs s in if progress s1 = Running then c s1 else s1)"
  using seq_step [of cs c "[]" s] by (simp add: Let_def)

lemma ends_in_echo:
  "progress (seq (cs @ [echo t]) s) = Running \<Longrightarrow> exit_status (seq (cs @ [echo t]) s) = Some 0"
  by (auto simp: seq_last Let_def echo_def exit_status_def split: if_splits)

lemma ends_in_run:
  assumes "progress (seq (cs @ [run P line]) s) = Running"
  shows "\<exists>mb st ma. external P line mb = Some (st, ma) \<and>
     exit_status (seq (cs @ [run P line]) s) = Some st \<and>
     last (trace (seq (cs @ [run P line]) s)) = Cmd line"
proof -
  let ?s1 = "seq cs s"
  from assms have run1: "progress ?s1 = Running"
    by (auto simp: seq_last Let_def split: if_splits)
  with assms have fin: "seq (cs @ [run P line]) s = run P line ?s1"
    by (simp add: seq_last Let_def)
  with assms obtain st ma where "external P line (machine ?s1) = Some (st, ma)"
    by (cases "external P line (machine ?s1)") (auto simp: run_def)
  with fin show ?thesis
    by (auto simp: run_def exit_status_def run1)
qed

lemma bodies_end:
  "setup_body P T = butlast (setup_body P T) @ [echo next_start]"
  "project_setup_body P T = butlast (project_setup_body P T) @ [echo project_next_implement]"
  "run_web_simple_body P = butlast (run_web_simple_body P) @ [run P streamlit_simple]"
  "run_web_body P = butlast (run_web_body P) @ [run P streamlit_app]"
  "start_body P = butlast (start_body P) @ [run P mcp_server]"
  by (simp_all add: run_web_simple_body_def run_web_simple_rest_def run_web_body_def
      run_web_rest_def start_body_def start_rest_def
      project_setup_body_def setup_body_def check_dependencies_def
      make_directories_def renew_venv_def install_packages_def generate_files_def
      closing_lines_def)


subsection \<open>Exit statuses\<close>

lemma hinted_exitD:
  "hinted_exit s \<Longrightarrow> progress s = Exited n \<Longrightarrow>
   n = 1 \<and> last (trace s) = Cmd ''exit 1'' \<and> (\<exists>t\<in>set exit_hints. Echo t \<in> set (trace s))"
  by (simp add: hinted_exit_def list_ex_iff)

lemma hinted_initial: "hinted_exit (initial args m)"
  by (simp add: hinted_exit_def initial_def)

lemma all_scripts_bodies:
  assumes "script \<in> set (all_scripts P T)"
  shows "\<exists>body. list_all argfree body \<and> list_all (preserves hinted_exit) body \<and>
    (\<forall>args m. script args m = seq body (initial args m))"
proof -
  from assms consider "script = setup_sh P T" | "script = project_setup_sh P T"
    | "script = run_web_simple_sh P" | "script = run_web_sh P" | "script = start_sh P"
    by (auto simp: all_scripts_def)
  then show ?thesis
  proof cases
    case 1
    have "list_all argfree (setup_body P T) \<and>
        list_all (preserves hinted_exit) (setup_body P T) \<and>
        (\<forall>args m. script args m = seq (setup_body P T) (initial args m))"
      using 1 argfree_bodies(5) [of P T] hinted_setup(2) [of P T] by (simp add: setup_sh_def)
    then show ?thesis by blast
  next
    case 2
    have "list_all argfree (project_setup_body P T) \<and>
        list_all (preserves hinted_exit) (project_setup_body P T) \<and>
        (\<forall>args m. script args m = seq (project_setup_body P T) (initial args m))"
      using 2 argfree_bodies(4) [of P T] hinted_setup(1) [of P T]
      by (simp add: project_setup_sh_def)
    then show ?thesis by blast
  next
    case 3
    have "list_all argfree (run_web_simple_body P) \<and>
        list_all (preserves hinted_exit) (run_web_simple_body P) \<and>
        (\<forall>args m. script args m = seq (run_web_simple_body P) (initial args m))"
      using 3 argfree_bodies(1) [of P] hinted_launch(1) [of P]
      by (simp add: run_web_simple_sh_def)
    then show ?thesis by blast
  next
    case 4
    have "list_all argfree (run_web_body P) \<and>
        list_all (preserves hinted_exit) (run_web_body P) \<and>
        (\<forall>args m. script args m = seq (run_web_body P) (initial args m))"
      using 4 argfree_bodies(2) [of P] hinted_launch(2) [of P] by (simp add: run_web_sh_def)
    then show ?thesis by blast
  next
    case 5
    have "list_all argfree (start_body P) \<and>
        list_all (preserves hinted_exit) (start_body P) \<and>
        (\<forall>args m. script args m = seq (start_body P) (initial args m))"
      using 5 argfree_bodies(3) [of P] hinted_launch(3) [of P] by (simp add: start_sh_def)
    then show ?thesis by blast
  qed
qed

subsection \<open>The checks of prerequisites\<close>

text \<open>
  A run of a script is the run up to one of its commands, that command, and the
  commands after it. Each check is one command of its script: it leaves with the
  hints and \<open>exit 1\<close> when what it tests fails, and goes on otherwise.
\<close>

lemma seq_at:
  assumes "k < length body"
  shows "seq body s =
    (let b = seq (take k body) s
     in if progress b = Running then seq (drop (Suc k) body) ((body ! k) b) else b)"
proof -
  have "body = take k body @ body ! k # drop (Suc k) body"
    using assms by (rule id_take_nth_drop)
  then have "seq body s = seq (take k body @ body ! k # drop (Suc k) body) s" by simp
  then show ?thesis by (simp only: seq_step)
qed

lemma hint_and_exit_facts:
  "progress (hint_and_exit hs t) = Exited 1"
  "exit_status (hint_and_exit hs t) = Some 1"
  "trace (hint_and_exit hs t) = trace t @ map Echo hs @ [Cmd ''exit 1'']"
  by (simp_all add: hint_and_exit_def exit_status_def)

lemma check_at_honoured:
  assumes k: "k < length body" and fin: "run_of = seq body (initial args m)"
    and step: "\<And>b. progress b = Running \<Longrightarrow> progress (test b) = Running \<Longrightarrow>
      (body ! k) b =
        (if miss (test b) then hint_and_exit hs (test b)
         else seq present ((test b)\<lparr>status := 0\<rparr>))"
    and hint: "\<exists>h\<in>set hs. h \<in> set exit_hints"
  shows "honoured (check_at run_of body k test miss hs present args m)"
proof -
  let ?b = "seq (take k body) (initial args m)"
  let ?t = "test ?b"
  have out: "run_of = seq (drop (Suc k) body) ((body ! k) ?b)" if "progress ?b = Running"
    using that seq_at [OF k, of "initial args m"] by (simp add: fin Let_def)
  have left: "run_of = hint_and_exit hs ?t"
    if "progress ?b = Running" "progress ?t = Running" "miss ?t"
    using that out step [of ?b] by (simp add: seq_stopped hint_and_exit_facts)
  have on: "run_of = seq (drop (Suc k) body) (seq present (?t\<lparr>status := 0\<rparr>))"
    if "progress ?b = Running" "progress ?t = Running" "\<not> miss ?t"
    using that out step [of ?b] by simp
  from hint obtain h where h: "h \<in> set hs" "h \<in> set exit_hints" by blast
  then have shown: "\<exists>h\<in>set exit_hints.
      Echo h \<in> set (drop (length (trace ?t)) (trace (hint_and_exit hs ?t)))"
    by (auto simp: hint_and_exit_facts)
  show ?thesis
    unfolding honoured_def check_at_def Let_def
    using left on shown by (simp add: hint_and_exit_facts)
qed


lemma guard_one:
  "progress (c b) = Running \<Longrightarrow>
   if_then_else (negated c) [echo h, exit_1] [] b =
     (if status (c b) = 0 then (c b)\<lparr>status := 0\<rparr> else hint_and_exit [h] (c b))"
  by (simp add: if_then_else_def negated_def Let_def echo_def exit_1_def hint_and_exit_def)

lemma guard_two:
  "progress (c b) = Running \<Longrightarrow>
   if_then_else (negated c) [echo h1, echo h2, exit_1] [] b =
     (if status (c b) = 0 then (c b)\<lparr>status := 0\<rparr> else hint_and_exit [h1, h2] (c b))"
  by (simp add: if_then_else_def negated_def Let_def echo_def exit_1_def hint_and_exit_def)

lemma guard_direct:
  "progress (c b) = Running \<Longrightarrow>
   if_then_else c [echo h, exit_1] [] b =
     (if status (c b) = 0 then hint_and_exit [h] (c b) else (c b)\<lparr>status := 0\<rparr>)"
  by (simp add: if_then_else_def Let_def echo_def exit_1_def hint_and_exit_def)

lemma same_status: "status s = v \<Longrightarrow> s\<lparr>status := v\<rparr> = s"
  by auto

lemma guard_else:
  "progress (c b) = Running \<Longrightarrow>
   if_then_else c present [echo h, exit_1] b =
     (if status (c b) = 0 then seq present ((c b)\<lparr>status := 0\<rparr>)
      else hint_and_exit [h] (c b))"
  by (simp add: if_then_else_def Let_def echo_def exit_1_def hint_and_exit_def same_status)

lemma have_command_facts:
  "machine (have_command P name b) = machine b"
  "(status (have_command P name b) = 0) = command_v P name (machine b)"
  by (simp_all add: have_command_def)

lemma test_not_f_facts:
  "machine (test_not_f p b) = machine b"
  "(status (test_not_f p b) = 0) = (\<not> is_file (files (machine b) p))"
  by (simp_all add: test_not_f_def)

lemma quiet_grep_facts:
  "machine (stderr_to_null (grep_q pat p) b) = machine b"
  "(status (stderr_to_null (grep_q ''sk-'' p) b) = 0) =
     has_substring ''sk-'' (files (machine b) p)"
  by (simp_all add: quiet_grep grep_sk)

lemma needs_python3_honoured: "honoured (needs_python3 P T args m)"
  unfolding needs_python3_def
proof (rule check_at_honoured)
  show "2 < length (setup_body P T)"
    by (simp add: setup_body_def check_dependencies_def)
  show "setup_sh P T args m = seq (setup_body P T) (initial args m)"
    by (simp add: setup_sh_def)
  show "\<exists>h\<in>set [python3_missing]. h \<in> set exit_hints" by (simp add: exit_hints_def)
next
  fix b :: "'a sh"
  assume "progress (have_command P ''python3'' b) = Running"
  then show "(setup_body P T ! 2) b =
    (if \<not> command_v P ''python3'' (machine (have_command P ''python3'' b))
     then hint_and_exit [python3_missing] (have_command P ''python3'' b)
     else seq [] ((have_command P ''python3'' b)\<lparr>status := 0\<rparr>))"
    by (simp add: setup_body_def check_dependencies_def guard_one have_command_facts)
qed

lemma needs_venv_module_honoured: "honoured (needs_venv_module P T args m)"
  unfolding needs_venv_module_def
proof (rule check_at_honoured)
  show "3 < length (setup_body P T)"
    by (simp add: setup_body_def check_dependencies_def)
  show "setup_sh P T args m = seq (setup_body P T) (initial args m)"
    by (simp add: setup_sh_def)
  show "\<exists>h\<in>set [venv_module_missing]. h \<in> set exit_hints" by (simp add: exit_hints_def)
next
  fix b :: "'a sh"
  assume "progress (run P ''python3 -m venv --help'' b) = Running"
  then show "(setup_body P T ! 3) b =
    (if status (run P ''python3 -m venv --help'' b) \<noteq> 0
     then hint_and_exit [venv_module_missing] (run P ''python3 -m venv --help'' b)
     else seq [] ((run P ''python3 -m venv --help'' b)\<lparr>status := 0\<rparr>))"
    by (simp add: setup_body_def check_dependencies_def guard_one)
qed

lemma needs_pip3_honoured: "honoured (needs_pip3 P T args m)"
  unfolding needs_pip3_def
proof (rule check_at_honoured)
  show "4 < length (setup_body P T)"
    by (simp add: setup_body_def check_dependencies_def)
  show "setup_sh P T args m = seq (setup_body P T) (initial args m)"
    by (simp add: setup_sh_def)
  show "\<exists>h\<in>set [pip3_missing]. h \<in> set exit_hints" by (simp add: exit_hints_def)
next
  fix b :: "'a sh"
  assume "progress (have_command P ''pip3'' b) = Running"
  then show "(setup_body P T ! 4) b =
    (if \<not> command_v P ''pip3'' (machine (have_command P ''pip3'' b))
     then hint_and_exit [pip3_missing] (have_command P ''pip3'' b)
     else seq [] ((have_command P ''pip3'' b)\<lparr>status := 0\<rparr>))"
    by (simp add: setup_body_def check_dependencies_def guard_one have_command_facts)
qed

lemma needs_activate_honoured: "honoured (needs_activate P T args m)"
  unfolding needs_activate_def
proof (rule check_at_honoured)
  show "19 < length (setup_body P T)"
    by (simp add: setup_body_def check_dependencies_def make_directories_def renew_venv_def)
  show "setup_sh P T args m = seq (setup_body P T) (initial args m)"
    by (simp add: setup_sh_def)
  show "\<exists>h\<in>set [venv_failed]. h \<in> set exit_hints" by (simp add: exit_hints_def)
next
  fix b :: "'a sh"
  assume "progress (test_not_f ''venv/bin/activate'' b) = Running"
  then show "(setup_body P T ! 19) b =
    (if \<not> is_file (files (machine (test_not_f ''venv/bin/activate'' b)) ''venv/bin/activate'')
     then hint_and_exit [venv_failed] (test_not_f ''venv/bin/activate'' b)
     else seq [] ((test_not_f ''venv/bin/activate'' b)\<lparr>status := 0\<rparr>))"
    by (simp add: setup_body_def check_dependencies_def make_directories_def renew_venv_def
        guard_direct test_not_f_facts)
qed

lemma needs_key_honoured:
  assumes "2 < length body" "body ! 2 = env_check" "run_of = seq body (initial args m)"
  shows "honoured (needs_key run_of body args m)"
  unfolding needs_key_def
proof (rule check_at_honoured)
  show "2 < length body" by (rule assms(1))
  show "run_of = seq body (initial args m)" by (rule assms(3))
  show "\<exists>h\<in>set [hint_configure_key, hint_edit_command]. h \<in> set exit_hints"
    by (simp add: exit_hints_def)
next
  fix b :: "'a sh"
  assume "progress (stderr_to_null (grep_q ''sk-'' ''.env'') b) = Running"
  then show "(body ! 2) b =
    (if \<not> has_substring ''sk-''
          (files (machine (stderr_to_null (grep_q ''sk-'' ''.env'') b)) ''.env'')
     then hint_and_exit [hint_configure_key, hint_edit_command]
       (stderr_to_null (grep_q ''sk-'' ''.env'') b)
     else seq [] ((stderr_to_null (grep_q ''sk-'' ''.env'') b)\<lparr>status := 0\<rparr>))"
    by (simp add: assms(2) env_check_def guard_two quiet_grep_facts)
qed

lemma needs_postgres_honoured: "honoured (needs_postgres P args m)"
  unfolding needs_postgres_def
proof (rule check_at_honoured)
  show "4 < length (start_body P)" by (simp add: start_body_def start_rest_def)
  show "start_sh P args m = seq (start_body P) (initial args m)" by (simp add: start_sh_def)
  show "\<exists>h\<in>set [postgres_failed]. h \<in> set exit_hints" by (simp add: exit_hints_def)
next
  fix b :: "'a sh"
  assume "progress (run P postgres_answers b) = Running"
  then show "(start_body P ! 4) b =
    (if status (run P postgres_answers b) \<noteq> 0
     then hint_and_exit [postgres_failed] (run P postgres_answers b)
     else seq [echo postgres_ok] ((run P postgres_answers b)\<lparr>status := 0\<rparr>))"
    by (simp add: start_body_def start_rest_def guard_else del: seq.simps)
qed


lemma mcp_step:
  assumes "progress (run P mcp_is_running b) = Running"
  shows "(run_web_body P ! 4) b =
    (let t = run P mcp_is_running b;
         a = reply_is_yes
               (echo [] (read_reply P (echo mcp_both_needed (echo mcp_not_running t))))
     in if status t = 0 then t\<lparr>status := 0\<rparr>
        else if status a = 0
          then seq [echo mcp_background_starting, background P mcp_in_background,
                    echo_pid P mcp_background_started, run P ''sleep 3''] a
          else hint_and_exit [] a)"
  using assms
  by (simp add: run_web_body_def run_web_rest_def if_then_else_def negated_def Let_def
      echo_def read_reply_def reply_is_yes_def exit_1_def hint_and_exit_def
      split: prod.splits)

lemma asked_facts:
  fixes t :: "'x sh" and P :: "'x programs"
  defines "a \<equiv> reply_is_yes
               (echo [] (read_reply P (echo mcp_both_needed (echo mcp_not_running t))))"
  shows "(status a = 0) = (reply a = ''y'' \<or> reply a = ''Y'')"
    and "trace a = trace t @ [Echo mcp_not_running, Echo mcp_both_needed,
           Cmd ''read -n 1 -r'', Echo [], Cmd ''[[ $REPLY =~ ^[Yy]$ ]]'']"
  by (simp_all add: a_def echo_def read_reply_def reply_is_yes_def split: prod.splits)

lemma needs_mcp_honoured: "honoured (needs_mcp P args m)"
proof -
  define b where "b = seq (take 4 (run_web_body P)) (initial args m)"
  define t where "t = run P mcp_is_running b"
  define a where "a = reply_is_yes
    (echo [] (read_reply P (echo mcp_both_needed (echo mcp_not_running t))))"
  have len: "4 < length (run_web_body P)"
    by (simp add: run_web_body_def run_web_rest_def)
  have whole: "run_web_sh P args m =
    (if progress b = Running then seq (drop 5 (run_web_body P)) ((run_web_body P ! 4) b) else b)"
    using seq_at [OF len, of "initial args m"] by (simp add: run_web_sh_def b_def Let_def)
  have yes: "(status a = 0) = (reply a = ''y'' \<or> reply a = ''Y'')"
    unfolding a_def by (rule asked_facts(1))
  have tr: "trace a = trace t @ [Echo mcp_not_running, Echo mcp_both_needed,
           Cmd ''read -n 1 -r'', Echo [], Cmd ''[[ $REPLY =~ ^[Yy]$ ]]'']"
    unfolding a_def by (rule asked_facts(2))
  have hint: "mcp_both_needed \<in> set exit_hints" by (simp add: exit_hints_def)
  have c: "needs_mcp P args m =
    \<lparr>outcome = run_web_sh P args m, reached = b, tested = t,
      missing = (status t \<noteq> 0 \<and> reply a \<noteq> ''y'' \<and> reply a \<noteq> ''Y''),
      leaves = hint_and_exit [] a,
      resumes =
        (if status t = 0 then t\<lparr>status := 0\<rparr>
         else seq [echo mcp_background_starting, background P mcp_in_background,
                   echo_pid P mcp_background_started, run P ''sleep 3''] a),
      remaining = drop 5 (run_web_body P)\<rparr>"
    by (simp add: needs_mcp_def Let_def b_def t_def a_def)
  show ?thesis
  proof (cases "progress b = Running \<and> progress t = Running")
    case False
    then show ?thesis by (auto simp add: honoured_def c)
  next
    case True
    then have pb: "progress b = Running" and pt: "progress t = Running" by simp_all
    have step: "(run_web_body P ! 4) b =
      (if status t = 0 then t\<lparr>status := 0\<rparr>
        else if status a = 0
          then seq [echo mcp_background_starting, background P mcp_in_background,
                    echo_pid P mcp_background_started, run P ''sleep 3''] a
          else hint_and_exit [] a)"
      using mcp_step [of P b] pt by (simp add: t_def a_def Let_def)
    show ?thesis
    proof (cases "status t \<noteq> 0 \<and> reply a \<noteq> ''y'' \<and> reply a \<noteq> ''Y''")
      case True
      then have "status t \<noteq> 0" "status a \<noteq> 0" using yes by simp_all
      then have out: "run_web_sh P args m = hint_and_exit [] a"
        using whole pb step by (simp add: seq_stopped hint_and_exit_facts)
      have "Echo mcp_both_needed
          \<in> set (drop (length (trace t)) (trace (hint_and_exit [] a)))"
        by (simp add: hint_and_exit_facts tr)
      with hint have "\<exists>h \<in> set exit_hints.
          Echo h \<in> set (drop (length (trace t)) (trace (hint_and_exit [] a)))"
        by blast
      with out True show ?thesis
        by (simp add: honoured_def c hint_and_exit_facts)
    next
      case False
      then have "status t = 0 \<or> status a = 0" using yes by auto
      then have "run_web_sh P args m = seq (drop 5 (run_web_body P))
        (if status t = 0 then t\<lparr>status := 0\<rparr>
         else seq [echo mcp_background_starting, background P mcp_in_background,
                   echo_pid P mcp_background_started, run P ''sleep 3''] a)"
        using whole pb step by auto
      with False show ?thesis by (auto simp add: honoured_def c simp del: seq.simps)
    qed
  qed
qed

lemma launch_bodies_check:
  "2 < length (run_web_simple_body P)" "run_web_simple_body P ! 2 = env_check"
  "2 < length (run_web_body P)" "run_web_body P ! 2 = env_check"
  "2 < length (start_body P)" "start_body P ! 2 = env_check"
  by (simp_all add: run_web_simple_body_def run_web_body_def start_body_def)

lemma prerequisite_checks_honoured:
  "list_all honoured (prerequisite_checks P T args m)"
  by (simp add: prerequisite_checks_def needs_python3_honoured needs_venv_module_honoured
      needs_pip3_honoured needs_activate_honoured needs_postgres_honoured needs_mcp_honoured
      needs_key_honoured launch_bodies_check run_web_simple_sh_def run_web_sh_def start_sh_def)

lemma setup_without_python3:
  "\<not> command_v P ''python3'' m \<Longrightarrow>
   setup_sh P T args m =
     hint_and_exit [python3_missing]
       (have_command P ''python3'' (echo deps_checking (echo setup_banner (initial args m))))"
  by (simp add: setup_sh_def setup_body_def check_dependencies_def initial_def echo_def
      if_then_else_def negated_def have_command_def exit_1_def hint_and_exit_def Let_def)

subsection \<open>Exit statuses and checks of all scripts\<close>

text \<open>
  Claim C7, amended. Every script runs the same way whatever its arguments are.
  When a script leaves through \<open>exit\<close>, the status is 1, \<open>exit 1\<close> is the last
  command it has run, and it has echoed one of the hints before. A set-up script
  that comes to its end exits with status 0, the status of its last \<open>echo\<close>. A
  launch script that comes to its end exits with the status of its last command,
  \<open>streamlit\<close> or the MCP server, whatever that status is. Every check of a
  prerequisite does its work: in a run that reaches the check and in which the
  command it tests returns, the script leaves there with exit status 1, having
  echoed a hint after the test, when the prerequisite is missing, and the run goes
  on with the commands after the check when it is there. In particular the set-up
  script of \<open>src/unnamed/part_003\<close> on a machine without \<open>python3\<close> exits with
  status 1 after the hint to install it.
\<close>

theorem scripts_exit_status:
  "(\<forall>script \<in> set (all_scripts P T).
      script args m = (script args' m)\<lparr>positional := args\<rparr> \<and>
      (\<forall>n. progress (script args m) = Exited n \<longrightarrow>
         n = 1 \<and> last (trace (script args m)) = Cmd ''exit 1'' \<and>
         (\<exists>t \<in> set exit_hints. Echo t \<in> set (trace (script args m))))) \<and>
   (\<forall>script \<in> set [setup_sh P T, project_setup_sh P T].
      progress (script args m) = Running \<longrightarrow> exit_status (script args m) = Some 0) \<and>
   (\<forall>(script, line) \<in> set [(run_web_simple_sh P, streamlit_simple),
        (run_web_sh P, streamlit_app), (start_sh P, mcp_server)].
      progress (script args m) = Running \<longrightarrow>
        (\<exists>mb st ma. external P line mb = Some (st, ma) \<and>
           exit_status (script args m) = Some st \<and>
           last (trace (script args m)) = Cmd line)) \<and>
   (\<forall>c \<in> set (prerequisite_checks P T args m).
      progress (reached c) = Running \<and> progress (tested c) = Running \<longrightarrow>
        (missing c \<longrightarrow>
           outcome c = leaves c \<and> exit_status (outcome c) = Some 1 \<and>
           (\<exists>h \<in> set exit_hints.
              Echo h \<in> set (drop (length (trace (tested c))) (trace (leaves c))))) \<and>
        (\<not> missing c \<longrightarrow> outcome c = seq (remaining c) (resumes c))) \<and>
   (\<not> command_v P ''python3'' m \<longrightarrow>
      exit_status (setup_sh P T args m) = Some 1 \<and>
      last (trace (setup_sh P T args m)) = Cmd ''exit 1'' \<and>
      Echo python3_missing \<in> set (trace (setup_sh P T args m)))"
proof -
  have old: "(\<forall>script \<in> set (all_scripts P T).
      script args m = (script args' m)\<lparr>positional := args\<rparr> \<and>
      (\<forall>n. progress (script args m) = Exited n \<longrightarrow>
         n = 1 \<and> last (trace (script args m)) = Cmd ''exit 1'' \<and>
         (\<exists>t \<in> set exit_hints. Echo t \<in> set (trace (script args m))))) \<and>
   (\<forall>script \<in> set [setup_sh P T, project_setup_sh P T].
      progress (script args m) = Running \<longrightarrow> exit_status (script args m) = Some 0) \<and>
   (\<forall>(script, line) \<in> set [(run_web_simple_sh P, streamlit_simple),
        (run_web_sh P, streamlit_app), (start_sh P, mcp_server)].
      progress (script args m) = Running \<longrightarrow>
        (\<exists>mb st ma. external P line mb = Some (st, ma) \<and>
           exit_status (script args m) = Some st \<and>
           last (trace (script args m)) = Cmd line))"
  proof (intro conjI ballI)
  fix script assume "script \<in> set (all_scripts P T)"
  then obtain body where body: "list_all argfree body" "list_all (preserves hinted_exit) body"
    "\<And>args m. script args m = seq body (initial args m)"
    using all_scripts_bodies by blast
  have "hinted_exit (script args m)"
    using seq_preserves [OF body(2) hinted_initial] by (simp add: body(3))
  then show "\<forall>n. progress (script args m) = Exited n \<longrightarrow>
         n = 1 \<and> last (trace (script args m)) = Cmd ''exit 1'' \<and>
         (\<exists>t \<in> set exit_hints. Echo t \<in> set (trace (script args m)))"
    using hinted_exitD by blast
  show "script args m = (script args' m)\<lparr>positional := args\<rparr>"
    using script_ignores_args [OF body(1)] by (simp add: body(3))
next
  fix script assume "script \<in> set [setup_sh P T, project_setup_sh P T]"
  then consider "script = setup_sh P T" | "script = project_setup_sh P T" by auto
  then show "progress (script args m) = Running \<longrightarrow> exit_status (script args m) = Some 0"
  proof cases
    case 1
    show ?thesis
      unfolding 1 setup_sh_def
      by (subst (1 2) bodies_end(1)) (auto dest: ends_in_echo)
  next
    case 2
    show ?thesis
      unfolding 2 project_setup_sh_def
      by (subst (1 2) bodies_end(2)) (auto dest: ends_in_echo)
  qed
next
  fix pair
  assume "pair \<in> set [(run_web_simple_sh P, streamlit_simple),
        (run_web_sh P, streamlit_app), (start_sh P, mcp_server)]"
  then consider "pair = (run_web_simple_sh P, streamlit_simple)"
    | "pair = (run_web_sh P, streamlit_app)" | "pair = (start_sh P, mcp_server)"
    by auto
  then show "case pair of (script, line) \<Rightarrow>
      progress (script args m) = Running \<longrightarrow>
        (\<exists>mb st ma. external P line mb = Some (st, ma) \<and>
           exit_status (script args m) = Some st \<and>
           last (trace (script args m)) = Cmd line)"
  proof cases
    case 1
    show ?thesis
      unfolding 1 prod.case run_web_simple_sh_def
      by (subst (1 2 3) bodies_end(3)) (rule impI, erule ends_in_run)
  next
    case 2
    show ?thesis
      unfolding 2 prod.case run_web_sh_def
      by (subst (1 2 3) bodies_end(4)) (rule impI, erule ends_in_run)
  next
    case 3
    show ?thesis
      unfolding 3 prod.case start_sh_def
      by (subst (1 2 3) bodies_end(5)) (rule impI, erule ends_in_run)
  qed
  qed
  note ignores = old [THEN conjunct1]
    and set_up = old [THEN conjunct2, THEN conjunct1]
    and launch = old [THEN conjunct2, THEN conjunct2]
  have checks: "\<forall>c \<in> set (prerequisite_checks P T args m).
      progress (reached c) = Running \<and> progress (tested c) = Running \<longrightarrow>
        (missing c \<longrightarrow>
           outcome c = leaves c \<and> exit_status (outcome c) = Some 1 \<and>
           (\<exists>h \<in> set exit_hints.
              Echo h \<in> set (drop (length (trace (tested c))) (trace (leaves c))))) \<and>
        (\<not> missing c \<longrightarrow> outcome c = seq (remaining c) (resumes c))"
    using prerequisite_checks_honoured [of P T args m]
    unfolding list_all_iff honoured_def .
  have python3: "\<not> command_v P ''python3'' m \<longrightarrow>
      exit_status (setup_sh P T args m) = Some 1 \<and>
      last (trace (setup_sh P T args m)) = Cmd ''exit 1'' \<and>
      Echo python3_missing \<in> set (trace (setup_sh P T args m))"
    by (simp add: setup_without_python3 hint_and_exit_facts)
  show ?thesis
    by (rule conjI [OF ignores conjI [OF set_up conjI [OF launch conjI [OF checks python3]]]])
qed

lemma start_configured:
  "external P mcp_server configured = Some (st, configured) \<Longrightarrow>
   (\<And>line. line \<noteq> mcp_server \<Longrightarrow> external P line configured = Some (0, configured)) \<Longrightarrow>
   command_v P ''docker-compose'' configured \<Longrightarrow>
   start_sh P args configured =
     \<lparr>machine = configured, positional = args,
      trace = [Echo start_banner, Cmd ''source venv/bin/activate'', Cmd ''grep -q sk- .env'',
        Echo postgres_checking, Cmd postgres_answers, Echo postgres_ok,
        Cmd ''command -v docker-compose'', Echo redis_starting,
        Cmd ''docker-compose up -d redis'', Cmd ''sleep 3'',
        Echo rag_starting, Echo stop_with_ctrl_c, Echo mcp_server_note, Cmd mcp_server],
      status = st, progress = Running, reply = []\<rparr>"
  by (simp add: start_sh_def start_body_def start_rest_def initial_def echo_def activate_def
      run_def env_check_passed key_configured passed_def if_then_else_def have_command_def
      mcp_server_def postgres_answers_def)

text \<open>
  Claim C7, as stated, fails: the last command of \<open>start.sh\<close> is the MCP server,
  and the script exits with the status of the server. With a key in \<open>.env\<close>, a
  database that answers, and a \<open>python\<close> that cannot open \<open>server.py\<close> and exits
  with status 2, the script exits with status 2.
\<close>

theorem start_exits_with_2:
  "exit_status (start_sh server_missing [] configured) = Some 2"
  by (subst start_configured [where st = 2])
    (simp_all add: server_missing_def obliging_def exit_status_def)


subsection \<open>Runs that reach the end\<close>

lemma running_commands:
  "preserves running (echo t)" "preserves running (have_command P name)"
  "preserves running (test_d p)" "preserves running (test_not_f p)"
  "preserves running (mkdir_p ps)" "preserves running (rm_rf p)"
  "preserves running (write_file p text)" "preserves running (cp src dst)"
  "preserves running (chmod_x p)"
  by (simp_all add: preserves_def running_def echo_def have_command_def test_d_def
      test_not_f_def mkdir_p_def rm_rf_def write_file_def cp_def chmod_x_def Let_def
      split: option.splits prod.splits node.splits)

lemma all_returnD:
  assumes "all_return P"
  shows "\<exists>st m'. external P line m = Some (st, m')"
proof -
  from assms have "external P line m \<noteq> None" by (simp add: all_return_def)
  then show ?thesis by (cases "external P line m") auto
qed

lemma running_run:
  assumes "all_return P"
  shows "preserves running (run P line)"
proof (rule preservesI)
  fix s :: "'a sh"
  assume "progress s = Running"
  moreover from all_returnD [OF assms, of line "machine s"]
  obtain st m' where "external P line (machine s) = Some (st, m')" by blast
  ultimately show "running (run P line s)" by (simp add: running_def run_def)
qed

lemma well_providedD:
  assumes "well_provided P"
  shows "all_return P" "\<forall>m. command_v P ''python3'' m" "\<forall>m. command_v P ''pip3'' m"
    "external P ''python3 -m venv --help'' m = Some (st, m') \<Longrightarrow> st = 0"
    "external P create_venv m = Some (st, m') \<Longrightarrow> is_file (files m' ''venv/bin/activate'')"
  using assms unfolding well_provided_def by blast+

lemma running_activate: "all_return P \<Longrightarrow> preserves running (activate P)"
  by (simp add: activate_def running_run)

lemma running_status: "running (s\<lparr>status := v\<rparr>) = running s"
  by (simp add: running_def)

lemma running_have:
  "\<forall>m. command_v P name m \<Longrightarrow>
   preserves running (if_then_else (negated (have_command P name)) [echo t, exit_1] [])"
  by (simp add: preserves_def running_def if_then_else_def negated_def have_command_def Let_def)

lemma running_venv_module:
  assumes "well_provided P"
  shows "preserves running
    (if_then_else (negated (run P ''python3 -m venv --help'')) [echo t, exit_1] [])"
proof (rule preservesI)
  fix s :: "'a sh"
  assume "progress s = Running"
  from all_returnD [OF well_providedD(1) [OF assms], of "''python3 -m venv --help''" "machine s"]
  obtain st m' where ext: "external P ''python3 -m venv --help'' (machine s) = Some (st, m')"
    by blast
  then have "st = 0" by (rule well_providedD(4) [OF assms])
  with ext \<open>progress s = Running\<close>
  show "running (if_then_else (negated (run P ''python3 -m venv --help'')) [echo t, exit_1] [] s)"
    by (simp add: running_def if_then_else_def negated_def run_def Let_def)
qed

lemma running_copy_env: "preserves running copy_env"
  by (simp add: copy_env_def preserves_if preserves_seq running_commands running_status)

lemma removed_under: "under d q \<Longrightarrow> files (removed d m) q = None"
  by (simp add: removed_def)

lemma removed_other: "\<not> under d q \<Longrightarrow> files (removed d m) q = files m q"
  by (simp add: removed_def)

lemma renew_existing:
  assumes "progress s = Running" "files (machine s) ''venv'' = Some Dir"
    and "external P create_venv (removed ''venv'' (machine s)) = Some (st, m')"
    and "is_file (files m' ''venv/bin/activate'')"
  shows "seq (renew_venv P) s =
    s\<lparr>machine := m',
      trace := trace s @ [Cmd ''[ -d venv ]'', Echo venv_cleaning, Cmd ''rm -rf venv'',
        Echo venv_creating, Cmd create_venv, Cmd ''[ ! -f venv/bin/activate ]''],
      status := 0\<rparr>"
  using assms
  by (simp add: renew_venv_def if_then_else_def test_d_def echo_def rm_rf_def run_def
      test_not_f_def Let_def)

lemma renew_fresh:
  assumes "progress s = Running" "files (machine s) ''venv'' \<noteq> Some Dir"
    and "external P create_venv (machine s) = Some (st, m')"
    and "is_file (files m' ''venv/bin/activate'')"
  shows "seq (renew_venv P) s =
    s\<lparr>machine := m',
      trace := trace s @ [Cmd ''[ -d venv ]'', Echo venv_creating, Cmd create_venv,
        Cmd ''[ ! -f venv/bin/activate ]''],
      status := 0\<rparr>"
  using assms
  by (simp add: renew_venv_def if_then_else_def test_d_def echo_def rm_rf_def run_def
      test_not_f_def Let_def)

lemma running_renew:
  assumes "well_provided P"
  shows "preserves running (seq (renew_venv P))"
proof (rule preservesI)
  fix s :: "'a sh"
  assume run: "progress s = Running"
  have ret: "\<exists>st m'. external P create_venv mb = Some (st, m') \<and>
      is_file (files m' ''venv/bin/activate'')" for mb
    using all_returnD [OF well_providedD(1) [OF assms], of create_venv mb]
      well_providedD(5) [OF assms] by blast
  show "running (seq (renew_venv P) s)"
  proof (cases "files (machine s) ''venv'' = Some Dir")
    case True
    from ret [of "removed ''venv'' (machine s)"] obtain st m'
      where "external P create_venv (removed ''venv'' (machine s)) = Some (st, m')"
        "is_file (files m' ''venv/bin/activate'')" by blast
    from renew_existing [OF run True this] run show ?thesis by (simp add: running_def)
  next
    case False
    from ret [of "machine s"] obtain st m'
      where "external P create_venv (machine s) = Some (st, m')"
        "is_file (files m' ''venv/bin/activate'')" by blast
    from renew_fresh [OF run False this] run show ?thesis by (simp add: running_def)
  qed
qed

lemma setup_body_parts:
  "setup_body P T = setup_before_venv P @ renew_venv P @ setup_after_venv P T"
  by (simp add: setup_body_def setup_before_venv_def setup_after_venv_def)

lemma setup_sh_parts:
  "setup_sh P T args m =
   seq (setup_after_venv P T) (seq (renew_venv P) (seq (setup_before_venv P) (initial args m)))"
  by (simp add: setup_sh_def setup_body_parts seq_append del: seq.simps)

lemmas running_rules =
  preserves_if preserves_seq running_commands running_run running_activate running_status
  running_have running_venv_module running_copy_env

lemma running_before_venv:
  "well_provided P \<Longrightarrow> list_all (preserves running) (setup_before_venv P)"
  by (simp add: setup_before_venv_def check_dependencies_def make_directories_def
      running_rules well_providedD)

lemma running_after_venv:
  "well_provided P \<Longrightarrow> list_all (preserves running) (setup_after_venv P T)"
  by (simp add: setup_after_venv_def install_packages_def generate_files_def closing_lines_def
      running_rules well_providedD)

lemma setup_runs_through:
  assumes "well_provided P"
  shows "progress (setup_sh P T args m) = Running"
proof -
  have "running (initial args m)" by (simp add: running_def initial_def)
  then have "running (seq (setup_before_venv P) (initial args m))"
    by (rule seq_preserves [OF running_before_venv [OF assms]])
  then have "running (seq (renew_venv P) (seq (setup_before_venv P) (initial args m)))"
    using running_renew [OF assms] by (auto simp: preserves_def running_def)
  then have "running (setup_sh P T args m)"
    unfolding setup_sh_parts by (rule seq_preserves [OF running_after_venv [OF assms]])
  then show ?thesis by (simp add: running_def)
qed

lemma project_setup_runs_through:
  assumes "all_return P"
  shows "progress (project_setup_sh P T args m) = Running"
proof -
  have "list_all (preserves running) (project_setup_body P T)"
    using assms
    by (simp add: project_setup_body_def make_directories_def install_packages_def
        running_rules)
  from seq_preserves [OF this, of "initial args m"] show ?thesis
    by (simp add: running_def initial_def project_setup_sh_def)
qed


subsection \<open>The virtual environment\<close>

lemma never_removed_commands:
  "preserves never_removed (echo t)"
  "line \<noteq> ''rm -rf venv'' \<Longrightarrow> preserves never_removed (run P line)"
  "preserves never_removed (mkdir_p ps)"
  "preserves never_removed (write_file p text)"
  "preserves never_removed (activate P)"
  by (simp_all add: preserves_def never_removed_def echo_def run_def mkdir_p_def
      write_file_def activate_def split: option.splits prod.splits)

lemma project_never_removes:
  "Cmd ''rm -rf venv'' \<notin> set (trace (project_setup_sh P T args m))"
proof -
  have "list_all (preserves never_removed) (project_setup_body P T)"
    by (simp add: project_setup_body_def make_directories_def install_packages_def
        never_removed_commands create_venv_def)
  from seq_preserves [OF this, of "initial args m"] show ?thesis
    by (simp add: never_removed_def initial_def project_setup_sh_def)
qed

lemma well_provided_installing: "well_provided installing"
  by (auto simp: well_provided_def all_return_def installing_def obliging_def is_file_def
      create_venv_def split: if_splits)

lemma all_return_obliging: "all_return obliging"
  by (simp add: all_return_def obliging_def)

text \<open>
  Claim C4, as stated, fails for \<open>src/project/setup.sh\<close>: run where an earlier
  set-up has left a virtual environment, it never removes the directory (here even
  a stale file in it is still there at the end, the programs called changing
  nothing); it reaches its end with status 0.
\<close>

theorem project_setup_keeps_venv:
  "files set_up_before ''venv'' = Some Dir \<and>
   Cmd ''rm -rf venv'' \<notin> set (trace (project_setup_sh obliging no_templates [] set_up_before)) \<and>
   files (machine (project_setup_sh obliging no_templates [] set_up_before)) ''venv/stale'' =
     Some (File ''old'') \<and>
   exit_status (project_setup_sh obliging no_templates [] set_up_before) = Some 0"
proof -
  have "files (machine (project_setup_sh obliging no_templates [] set_up_before)) ''venv/stale'' =
     Some (File ''old'')"
    by (simp add: project_setup_sh_def project_setup_body_def make_directories_def
        install_packages_def initial_def echo_def run_def activate_def mkdir_p_def
        write_file_def is_file_def obliging_def set_up_before_def no_templates_def
        create_venv_def)
  moreover have "exit_status (project_setup_sh obliging no_templates [] set_up_before) = Some 0"
    using project_setup_runs_through [OF all_return_obliging, of no_templates "[]" set_up_before]
      ends_in_echo [of "butlast (project_setup_body obliging no_templates)"
        project_next_implement "initial [] set_up_before"]
    by (simp add: project_setup_sh_def bodies_end(2) [symmetric])
  ultimately show ?thesis
    using project_never_removes [of obliging no_templates "[]" set_up_before]
    by (simp add: set_up_before_def)
qed


text \<open>
  Claim C4, amended. The set-up script of \<open>src/unnamed/part_003\<close> runs its handling
  of the virtual environment between the creation of the directories and the
  installation of the packages. Where \<open>venv\<close> is a directory, it removes it with
  everything below it and runs \<open>python3 -m venv venv\<close> on the directory without it.
  Where \<open>python3\<close>, its \<open>venv\<close> module and \<open>pip3\<close> are found, every program called
  returns, and \<open>python3 -m venv venv\<close> leaves \<open>venv/bin/activate\<close>, the script runs to
  its end and exits with status 0, be it the first run or a later one.
  \<open>src/project/setup.sh\<close> never removes \<open>venv\<close>; it runs to its end with status 0
  whenever every program it calls returns.
\<close>

theorem setup_renews_venv:
  "setup_sh P T args m =
     seq (setup_after_venv P T)
       (seq (renew_venv P) (seq (setup_before_venv P) (initial args m))) \<and>
   (\<forall>s. progress s = Running \<and> files (machine s) ''venv'' = Some Dir \<and> well_provided P \<longrightarrow>
      (\<forall>q. under ''venv'' q \<longrightarrow> files (removed ''venv'' (machine s)) q = None) \<and>
      (\<exists>st m'. external P create_venv (removed ''venv'' (machine s)) = Some (st, m') \<and>
         seq (renew_venv P) s =
           s\<lparr>machine := m',
             trace := trace s @ [Cmd ''[ -d venv ]'', Echo venv_cleaning, Cmd ''rm -rf venv'',
               Echo venv_creating, Cmd create_venv, Cmd ''[ ! -f venv/bin/activate ]''],
             status := 0\<rparr>)) \<and>
   (well_provided P \<longrightarrow>
      progress (setup_sh P T args m) = Running \<and>
      exit_status (setup_sh P T args m) = Some 0) \<and>
   (all_return P \<longrightarrow>
      progress (project_setup_sh P T args m) = Running \<and>
      exit_status (project_setup_sh P T args m) = Some 0) \<and>
   Cmd ''rm -rf venv'' \<notin> set (trace (project_setup_sh P T args m))"
proof (intro conjI allI impI)
  show "setup_sh P T args m =
     seq (setup_after_venv P T)
       (seq (renew_venv P) (seq (setup_before_venv P) (initial args m)))"
    by (rule setup_sh_parts)
next
  fix s :: "'a sh" and q
  assume "under ''venv'' q"
  then show "files (removed ''venv'' (machine s)) q = None" by (rule removed_under)
next
  fix s :: "'a sh"
  assume a: "progress s = Running \<and> files (machine s) ''venv'' = Some Dir \<and> well_provided P"
  then have wp: "well_provided P" by simp
  from all_returnD [OF well_providedD(1) [OF wp], of create_venv "removed ''venv'' (machine s)"]
  obtain st m' where ext: "external P create_venv (removed ''venv'' (machine s)) = Some (st, m')"
    by blast
  then have "is_file (files m' ''venv/bin/activate'')" by (rule well_providedD(5) [OF wp])
  with a ext renew_existing [of s P st m']
  show "\<exists>st m'. external P create_venv (removed ''venv'' (machine s)) = Some (st, m') \<and>
         seq (renew_venv P) s =
           s\<lparr>machine := m',
             trace := trace s @ [Cmd ''[ -d venv ]'', Echo venv_cleaning, Cmd ''rm -rf venv'',
               Echo venv_creating, Cmd create_venv, Cmd ''[ ! -f venv/bin/activate ]''],
             status := 0\<rparr>"
    by blast
next
  assume wp: "well_provided P"
  show run: "progress (setup_sh P T args m) = Running" by (rule setup_runs_through [OF wp])
  show "exit_status (setup_sh P T args m) = Some 0"
    using run ends_in_echo [of "butlast (setup_body P T)" next_start "initial args m"]
    by (simp add: setup_sh_def bodies_end(1) [symmetric])
next
  assume ret: "all_return P"
  show run: "progress (project_setup_sh P T args m) = Running"
    by (rule project_setup_runs_through [OF ret])
  show "exit_status (project_setup_sh P T args m) = Some 0"
    using run ends_in_echo [of "butlast (project_setup_body P T)" project_next_implement
        "initial args m"]
    by (simp add: project_setup_sh_def bodies_end(2) [symmetric])
next
  show "Cmd ''rm -rf venv'' \<notin> set (trace (project_setup_sh P T args m))"
    by (rule project_never_removes)
qed

text \<open>
  The amended claim on a directory that an earlier set-up has left, with a
  \<open>python3 -m venv venv\<close> that makes the environment: the stale file is gone before
  the environment is made again, and the script exits with status 0.
\<close>

theorem setup_renews_venv_witness:
  "well_provided installing \<and>
   files (machine (initial [] set_up_before)) ''venv'' = Some Dir \<and>
   under ''venv'' ''venv/stale'' \<and>
   files (removed ''venv'' (machine (initial [] set_up_before))) ''venv/stale'' = None \<and>
   trace (seq (renew_venv installing) (initial [] set_up_before)) =
     [Cmd ''[ -d venv ]'', Echo venv_cleaning, Cmd ''rm -rf venv'',
      Echo venv_creating, Cmd create_venv, Cmd ''[ ! -f venv/bin/activate ]''] \<and>
   exit_status (setup_sh installing no_templates [] set_up_before) = Some 0"
proof -
  have pre: "progress (initial [] set_up_before) = Running"
    "files (machine (initial [] set_up_before)) ''venv'' = Some Dir"
    by (simp_all add: initial_def set_up_before_def)
  have sub: "under ''venv'' ''venv/stale''" by (simp add: under_def)
  from setup_renews_venv [of installing no_templates "[]" set_up_before]
    pre sub well_provided_installing
  have "files (removed ''venv'' (machine (initial [] set_up_before))) ''venv/stale'' = None"
    and "\<exists>st m'. seq (renew_venv installing) (initial [] set_up_before) =
      (initial [] set_up_before)\<lparr>machine := m',
         trace := trace (initial [] set_up_before) @
           [Cmd ''[ -d venv ]'', Echo venv_cleaning, Cmd ''rm -rf venv'',
            Echo venv_creating, Cmd create_venv, Cmd ''[ ! -f venv/bin/activate ]''],
         status := 0\<rparr>"
    and "exit_status (setup_sh installing no_templates [] set_up_before) = Some 0"
    by blast+
  with pre sub well_provided_installing show ?thesis
    by (auto simp: initial_def)
qed


lemma start_unconfigured:
  "start_sh obliging args unconfigured =
   refused (before_check start_banner obliging args unconfigured)"
proof -
  have "(start_sh obliging args unconfigured,
      before_check start_banner obliging args unconfigured,
      start_rest obliging) \<in> set (launch_scripts obliging args unconfigured)"
    by (simp add: launch_scripts_def)
  from launch_scripts_final [OF this] key_unconfigured show ?thesis
    by (simp add: before_check_obliging env_check_refused refused_stops)
qed

lemma postgres_down_tested:
  "run postgres_down postgres_answers
     (seq (take 4 (start_body postgres_down)) (initial args configured)) =
   \<lparr>machine = configured, positional = args,
    trace = [Echo start_banner, Cmd ''source venv/bin/activate'', Cmd ''grep -q sk- .env'',
      Echo postgres_checking, Cmd postgres_answers],
    status = 1, progress = Running, reply = []\<rparr>"
  by (simp add: start_body_def start_rest_def initial_def echo_def activate_def run_def
      env_check_passed key_configured passed_def postgres_down_def obliging_def)

lemma postgres_down_reached:
  "progress (seq (take 4 (start_body postgres_down)) (initial args configured)) = Running"
  by (simp add: start_body_def start_rest_def initial_def echo_def activate_def run_def
      env_check_passed key_configured passed_def postgres_down_def obliging_def)

text \<open>
  The amended claim on \<open>start.sh\<close> without a key (it leaves through \<open>exit 1\<close>,
  with or without arguments), with a key and a database that does not answer (it
  leaves with status 1 after the hint on PostgreSQL), and with a key and a database
  that answers (it exits with the status of the server, here 0); and on the set-up
  script in an empty directory.
\<close>

theorem scripts_exit_status_witness:
  "start_sh obliging [''--port'', ''80''] unconfigured =
     (start_sh obliging [] unconfigured)\<lparr>positional := [''--port'', ''80'']\<rparr> \<and>
   progress (start_sh obliging [] unconfigured) = Exited 1 \<and>
   last (trace (start_sh obliging [] unconfigured)) = Cmd ''exit 1'' \<and>
   progress (setup_sh installing no_templates [] bare) = Running \<and>
   exit_status (setup_sh installing no_templates [] bare) = Some 0 \<and>
   progress (start_sh obliging [] configured) = Running \<and>
   exit_status (start_sh obliging [] configured) = Some 0 \<and>
   exit_status (start_sh postgres_down [] configured) = Some 1 \<and>
   trace (start_sh postgres_down [] configured) =
     [Echo start_banner, Cmd ''source venv/bin/activate'', Cmd ''grep -q sk- .env'',
      Echo postgres_checking, Cmd postgres_answers, Echo postgres_failed, Cmd ''exit 1'']"
proof -
  have ex: "progress (start_sh obliging [] unconfigured) = Exited 1"
    by (simp add: start_unconfigured refused_def)
  have su: "progress (setup_sh installing no_templates [] bare) = Running"
    by (rule setup_runs_through [OF well_provided_installing])
  have st: "start_sh obliging [] configured =
     \<lparr>machine = configured, positional = [],
      trace = [Echo start_banner, Cmd ''source venv/bin/activate'', Cmd ''grep -q sk- .env'',
        Echo postgres_checking, Cmd postgres_answers, Echo postgres_ok,
        Cmd ''command -v docker-compose'', Echo redis_starting,
        Cmd ''docker-compose up -d redis'', Cmd ''sleep 3'',
        Echo rag_starting, Echo stop_with_ctrl_c, Echo mcp_server_note, Cmd mcp_server],
      status = 0, progress = Running, reply = []\<rparr>"
    by (rule start_configured) (simp_all add: obliging_def)
  have mem: "start_sh obliging \<in> set (all_scripts obliging no_templates)"
    by (simp add: all_scripts_def)
  from scripts_exit_status
    [of obliging no_templates "[''--port'', ''80'']" unconfigured "[]"] mem
  have a: "start_sh obliging [''--port'', ''80''] unconfigured =
     (start_sh obliging [] unconfigured)\<lparr>positional := [''--port'', ''80'']\<rparr>"
    by blast
  from scripts_exit_status [of obliging no_templates "[]" unconfigured "[]"] mem ex
  have b: "last (trace (start_sh obliging [] unconfigured)) = Cmd ''exit 1''"
    by blast
  from scripts_exit_status [of installing no_templates "[]" bare "[]"] su
  have c: "exit_status (setup_sh installing no_templates [] bare) = Some 0"
    by simp
  have pg: "needs_postgres postgres_down [] configured
      \<in> set (prerequisite_checks postgres_down no_templates [] configured)"
    by (simp add: prerequisite_checks_def)
  have facts: "progress (reached (needs_postgres postgres_down [] configured)) = Running"
    "progress (tested (needs_postgres postgres_down [] configured)) = Running"
    "missing (needs_postgres postgres_down [] configured)"
    "outcome (needs_postgres postgres_down [] configured) = start_sh postgres_down [] configured"
    "leaves (needs_postgres postgres_down [] configured) =
       \<lparr>machine = configured, positional = [],
        trace = [Echo start_banner, Cmd ''source venv/bin/activate'',
          Cmd ''grep -q sk- .env'', Echo postgres_checking, Cmd postgres_answers,
          Echo postgres_failed, Cmd ''exit 1''],
        status = 0, progress = Exited 1, reply = []\<rparr>"
    by (simp_all add: needs_postgres_def check_at_def Let_def postgres_down_tested
        postgres_down_reached hint_and_exit_def)
  from scripts_exit_status [of postgres_down no_templates "[]" configured "[]"] pg
  have "progress (reached (needs_postgres postgres_down [] configured)) = Running \<and>
      progress (tested (needs_postgres postgres_down [] configured)) = Running \<longrightarrow>
      missing (needs_postgres postgres_down [] configured) \<longrightarrow>
      outcome (needs_postgres postgres_down [] configured) =
        leaves (needs_postgres postgres_down [] configured)"
    by blast
  with facts have d: "start_sh postgres_down [] configured =
       \<lparr>machine = configured, positional = [],
        trace = [Echo start_banner, Cmd ''source venv/bin/activate'',
          Cmd ''grep -q sk- .env'', Echo postgres_checking, Cmd postgres_answers,
          Echo postgres_failed, Cmd ''exit 1''],
        status = 0, progress = Exited 1, reply = []\<rparr>"
    by simp
  from a b c ex su st d show ?thesis by (simp add: exit_status_def)
qed

subsection \<open>The file \<open>.env\<close> across a set-up\<close>

lemma make_dirs_other: "p \<notin> set ds \<Longrightarrow> fst (make_dirs ds f) p = f p"
  by (induction ds arbitrary: f) auto

lemma mkdir_operands_other:
  "p \<notin> set (concat (map (parents []) ps)) \<Longrightarrow> fst (mkdir_operands ps f) p = f p"
proof (induction ps arbitrary: f)
  case Nil
  show ?case by simp
next
  case (Cons q ps)
  then have q: "p \<notin> set (parents [] q)" and ps: "p \<notin> set (concat (map (parents []) ps))"
    by simp_all
  obtain f1 ok1 where f1: "make_dirs (parents [] q) f = (f1, ok1)"
    by (cases "make_dirs (parents [] q) f")
  obtain f2 ok2 where f2: "mkdir_operands ps f1 = (f2, ok2)"
    by (cases "mkdir_operands ps f1")
  from make_dirs_other [OF q, of f] f1 have "f1 p = f p" by simp
  moreover from Cons.IH [OF ps, of f1] f2 have "f2 p = f1 p" by simp
  ultimately show ?case using f1 f2 by simp
qed

lemma kept_status: "kept c (s\<lparr>status := v\<rparr>) = kept c s"
  by (simp add: kept_def)

lemma kept_commands:
  "preserves (kept c) (echo t)" "preserves (kept c) exit_1"
  "preserves (kept c) (have_command P name)"
  "preserves (kept c) (test_d p)" "preserves (kept c) (test_not_f p)"
  "preserves (kept c) (chmod_x p)"
  by (simp_all add: preserves_def kept_def echo_def exit_1_def have_command_def test_d_def
      test_not_f_def chmod_x_def)

lemma kept_run:
  assumes "leave_dotenv P" "line \<noteq> ''cp .env.example .env''"
  shows "preserves (kept c) (run P line)"
proof (rule preservesI)
  fix s :: "'a sh"
  assume k: "kept c s"
  show "kept c (run P line s)"
  proof (cases "external P line (machine s)")
    case None
    with k assms(2) show ?thesis by (simp add: run_def kept_def)
  next
    case (Some r)
    obtain st m' where r: "r = (st, m')" by (cases r)
    with Some assms(1) have "files m' ''.env'' = files (machine s) ''.env''"
      unfolding leave_dotenv_def by blast
    with k assms(2) Some r show ?thesis by (simp add: run_def kept_def)
  qed
qed

lemma kept_mkdir:
  assumes "''.env'' \<notin> set (concat (map (parents []) ps))"
  shows "preserves (kept c) (mkdir_p ps)"
proof (rule preservesI)
  fix s :: "'a sh"
  assume k: "kept c s"
  obtain f ok where f: "mkdir_operands ps (files (machine s)) = (f, ok)"
    by (cases "mkdir_operands ps (files (machine s))")
  from mkdir_operands_other [OF assms, of "files (machine s)"] f
  have "f ''.env'' = files (machine s) ''.env''" by simp
  with k f show "kept c (mkdir_p ps s)" by (simp add: mkdir_p_def kept_def)
qed

lemma kept_rm: "\<not> under d ''.env'' \<Longrightarrow> preserves (kept c) (rm_rf d)"
  by (simp add: preserves_def kept_def rm_rf_def removed_def)

lemma kept_write: "p \<noteq> ''.env'' \<Longrightarrow> preserves (kept c) (write_file p text)"
  by (simp add: preserves_def kept_def write_file_def)

lemma kept_copy_env: "preserves (kept c) copy_env"
  by (simp add: preserves_def kept_def copy_env_def if_then_else_def test_not_f_def
      is_file_def echo_def Let_def)

lemmas kept_rules =
  preserves_if preserves_negated preserves_seq kept_status kept_commands kept_run kept_mkdir
  kept_rm kept_write kept_copy_env

lemma kept_setup:
  "leave_dotenv P \<Longrightarrow> list_all (preserves (kept c)) (setup_body P T)"
  by (simp add: setup_body_def check_dependencies_def make_directories_def renew_venv_def
      install_packages_def generate_files_def closing_lines_def activate_def create_venv_def
      kept_rules under_def)


lemma written_commands:
  "preserves (written f t) (echo x)" "preserves (written f t) (chmod_x p)"
  "g \<noteq> f \<Longrightarrow> preserves (written f t) (write_file g u)"
  by (simp_all add: preserves_def written_def echo_def chmod_x_def write_file_def)

lemma cp_progress: "progress (cp src dst s) = progress s"
  by (simp add: cp_def Let_def split: option.splits node.splits)

lemma cp_other:
  assumes "q \<noteq> dst" "q \<noteq> dst @ ''/'' @ src"
  shows "files (machine (cp src dst s)) q = files (machine s) q"
proof (cases "files (machine s) src")
  case None
  then show ?thesis by (simp add: cp_def Let_def)
next
  case (Some n)
  show ?thesis
  proof (cases n)
    case (File c)
    with Some assms show ?thesis by (simp add: cp_def Let_def)
  next
    case Dir
    with Some show ?thesis by (simp add: cp_def Let_def)
  qed
qed

lemma copy_env_other:
  assumes "q \<noteq> ''.env''" "q \<noteq> ''.env/.env.example''"
  shows "files (machine (copy_env s)) q = files (machine s) q"
proof -
  have cp: "files (machine (cp ''.env.example'' ''.env'' s')) q = files (machine s') q"
    for s' :: "'a sh"
    using assms by (intro cp_other) simp_all
  show ?thesis
  proof (cases "is_file (files (machine s) ''.env'')")
    case True
    then show ?thesis
      by (simp add: copy_env_def if_then_else_def test_not_f_def echo_def Let_def)
  next
    case False
    then show ?thesis
      by (simp add: copy_env_def if_then_else_def test_not_f_def echo_def Let_def
          cp_progress cp)
  qed
qed

lemma written_copy_env:
  "f \<noteq> ''.env'' \<Longrightarrow> f \<noteq> ''.env/.env.example'' \<Longrightarrow> preserves (written f t) copy_env"
  by (simp add: preserves_def written_def copy_env_other)

lemma written_write: "written f t (write_file f t s)"
  by (simp add: written_def write_file_def)

lemma written_at:
  assumes "i < length cs" "cs ! i = write_file f t"
    and "list_all (preserves (written f t)) (drop (Suc i) cs)"
    and "progress (seq cs s) = Running"
  shows "written f t (seq cs s)"
proof -
  let ?s1 = "seq (take i cs) s"
  have cs: "cs = take i cs @ write_file f t # drop (Suc i) cs"
    using id_take_nth_drop [OF assms(1)] assms(2) by simp
  have step: "seq cs s =
      (if progress ?s1 = Running then seq (drop (Suc i) cs) (write_file f t ?s1) else ?s1)"
    by (subst cs) (simp add: seq_step Let_def del: seq.simps)
  with assms(4) have "seq cs s = seq (drop (Suc i) cs) (write_file f t ?s1)"
    by (auto split: if_splits)
  with seq_preserves [OF assms(3) written_write, of ?s1] show ?thesis by simp
qed

lemma generated_cases:
  assumes "(f, t) \<in> set (generated T)"
  shows "(f = ''.env.example'' \<and> t = env_example T)
    \<or> (f = ''docker-compose.yml'' \<and> t = compose_yml T)
    \<or> (f = ''requirements.txt'' \<and> t = requirements_txt T)
    \<or> (f = ''start.sh'' \<and> t = start_script T)
    \<or> (f = ''test.py'' \<and> t = test_script T)"
  using assms by (simp add: generated_def)

lemma generated_each:
  assumes "progress (seq (generate_files T @ [copy_env] @ closing_lines) s) = Running"
  shows "written ''.env.example'' (env_example T)
      (seq (generate_files T @ [copy_env] @ closing_lines) s)"
    and "written ''docker-compose.yml'' (compose_yml T)
      (seq (generate_files T @ [copy_env] @ closing_lines) s)"
    and "written ''requirements.txt'' (requirements_txt T)
      (seq (generate_files T @ [copy_env] @ closing_lines) s)"
    and "written ''start.sh'' (start_script T)
      (seq (generate_files T @ [copy_env] @ closing_lines) s)"
    and "written ''test.py'' (test_script T)
      (seq (generate_files T @ [copy_env] @ closing_lines) s)"
proof -
  show "written ''.env.example'' (env_example T)
      (seq (generate_files T @ [copy_env] @ closing_lines) s)"
    by (rule written_at [where i = 1, OF _ _ _ assms])
      (simp_all add: generate_files_def closing_lines_def written_commands written_copy_env)
  show "written ''docker-compose.yml'' (compose_yml T)
      (seq (generate_files T @ [copy_env] @ closing_lines) s)"
    by (rule written_at [where i = 3, OF _ _ _ assms])
      (simp_all add: generate_files_def closing_lines_def written_commands written_copy_env)
  show "written ''requirements.txt'' (requirements_txt T)
      (seq (generate_files T @ [copy_env] @ closing_lines) s)"
    by (rule written_at [where i = 5, OF _ _ _ assms])
      (simp_all add: generate_files_def closing_lines_def written_commands written_copy_env)
  show "written ''start.sh'' (start_script T)
      (seq (generate_files T @ [copy_env] @ closing_lines) s)"
    by (rule written_at [where i = 7, OF _ _ _ assms])
      (simp_all add: generate_files_def closing_lines_def written_commands written_copy_env)
  show "written ''test.py'' (test_script T)
      (seq (generate_files T @ [copy_env] @ closing_lines) s)"
    by (rule written_at [where i = 10, OF _ _ _ assms])
      (simp_all add: generate_files_def closing_lines_def written_commands written_copy_env)
qed

lemma generated_written:
  assumes "(f, t) \<in> set (generated T)"
    and "progress (seq (generate_files T @ [copy_env] @ closing_lines) s) = Running"
  shows "written f t (seq (generate_files T @ [copy_env] @ closing_lines) s)"
  using generated_cases [OF assms(1)] generated_each [OF assms(2)]
  by (elim disjE conjE) simp_all

lemma setup_sh_tail:
  "setup_sh P T args m =
   seq (generate_files T @ [copy_env] @ closing_lines)
     (seq (setup_before_venv P @ renew_venv P @
        [echo venv_activating, activate P, echo packages_installing] @ install_packages P)
       (initial args m))"
proof -
  have "setup_body P T =
    (setup_before_venv P @ renew_venv P @
        [echo venv_activating, activate P, echo packages_installing] @ install_packages P) @
    (generate_files T @ [copy_env] @ closing_lines)"
    by (simp add: setup_body_def setup_before_venv_def)
  then show ?thesis by (simp only: setup_sh_def seq_append)
qed

lemma cp_onto_missing:
  assumes "files (machine s) dst = None" "files (machine s) src = Some (File e)"
  shows "cp src dst s =
    s\<lparr>machine := (machine s)\<lparr>files := (files (machine s))(dst \<mapsto> File e)\<rparr>,
      trace := trace s @ [Cmd (''cp '' @ src @ '' '' @ dst)], status := 0\<rparr>"
  using assms by (simp add: cp_def Let_def)

lemma copy_env_copies:
  assumes "progress s = Running" "files (machine s) ''.env'' = None"
    and "files (machine s) ''.env.example'' = Some (File e)"
  shows "files (machine (copy_env s)) ''.env'' = Some (File e)"
    and "Cmd ''cp .env.example .env'' \<in> set (trace (copy_env s))"
proof -
  let ?s1 = "test_not_f ''.env'' s"
  have s1: "progress ?s1 = Running" "status ?s1 = 0" "machine ?s1 = machine s"
    using assms(1,2) by (simp_all add: test_not_f_def is_file_def)
  have cp: "cp ''.env.example'' ''.env'' ?s1 =
    ?s1\<lparr>machine := (machine ?s1)\<lparr>files := (files (machine ?s1))(''.env'' \<mapsto> File e)\<rparr>,
      trace := trace ?s1 @ [Cmd (''cp '' @ ''.env.example'' @ '' '' @ ''.env'')], status := 0\<rparr>"
    using assms(2,3) s1(3) by (intro cp_onto_missing) simp_all
  have "copy_env s = echo env_created (cp ''.env.example'' ''.env'' ?s1)"
    using s1(1,2) by (simp add: copy_env_def if_then_else_def Let_def cp_progress)
  then have eq: "copy_env s =
    echo env_created (?s1\<lparr>machine := (machine ?s1)\<lparr>files := (files (machine ?s1))(''.env'' \<mapsto> File e)\<rparr>,
      trace := trace ?s1 @ [Cmd (''cp '' @ ''.env.example'' @ '' '' @ ''.env'')], status := 0\<rparr>)"
    by (simp only: cp)
  show "files (machine (copy_env s)) ''.env'' = Some (File e)"
    unfolding eq by (simp add: echo_def)
  show "Cmd ''cp .env.example .env'' \<in> set (trace (copy_env s))"
    unfolding eq by (simp add: echo_def)
qed

text \<open>
  Claim C9. Where \<open>.env\<close> is a file when the set-up script starts, and no program
  the script calls touches it, the file has the same content at every point the
  script can stop at, and the script never runs the copy of \<open>.env.example\<close> onto it.
  The five generated files are written again: after a run that reaches the end each
  holds its template (unless a directory of that name is in the way). The copy is
  made where there is no \<open>.env\<close>: it then gives \<open>.env\<close> the content of
  \<open>.env.example\<close>.
\<close>

theorem setup_keeps_dotenv:
  "(leave_dotenv P \<and> files m ''.env'' = Some (File c) \<longrightarrow>
      files (machine (setup_sh P T args m)) ''.env'' = Some (File c) \<and>
      Cmd ''cp .env.example .env'' \<notin> set (trace (setup_sh P T args m))) \<and>
   (progress (setup_sh P T args m) = Running \<longrightarrow>
      (\<forall>(p, tmpl) \<in> set (generated T). written p tmpl (setup_sh P T args m))) \<and>
   (progress s = Running \<and> files (machine s) ''.env'' = None \<and>
    files (machine s) ''.env.example'' = Some (File e) \<longrightarrow>
      files (machine (copy_env s)) ''.env'' = Some (File e) \<and>
      Cmd ''cp .env.example .env'' \<in> set (trace (copy_env s)))"
proof (intro conjI impI)
  assume a: "leave_dotenv P \<and> files m ''.env'' = Some (File c)"
  then have "kept c (initial args m)" by (simp add: kept_def initial_def)
  moreover from a have "list_all (preserves (kept c)) (setup_body P T)"
    by (intro kept_setup) simp
  ultimately have "kept c (setup_sh P T args m)"
    unfolding setup_sh_def by (rule seq_preserves [rotated])
  then show "files (machine (setup_sh P T args m)) ''.env'' = Some (File c)"
    and "Cmd ''cp .env.example .env'' \<notin> set (trace (setup_sh P T args m))"
    by (simp_all add: kept_def)
next
  assume run: "progress (setup_sh P T args m) = Running"
  show "\<forall>(p, tmpl) \<in> set (generated T). written p tmpl (setup_sh P T args m)"
  proof (intro ballI, clarify)
    fix p tmpl
    assume "(p, tmpl) \<in> set (generated T)"
    then show "written p tmpl (setup_sh P T args m)"
      using run unfolding setup_sh_tail by (rule generated_written)
  qed
next
  assume a: "progress s = Running \<and> files (machine s) ''.env'' = None \<and>
    files (machine s) ''.env.example'' = Some (File e)"
  then show "files (machine (copy_env s)) ''.env'' = Some (File e)"
    and "Cmd ''cp .env.example .env'' \<in> set (trace (copy_env s))"
    by (simp_all add: copy_env_copies)
qed

lemma leave_dotenv_installing: "leave_dotenv installing"
  by (auto simp: leave_dotenv_def installing_def obliging_def create_venv_def split: if_splits)

text \<open>
  The claim on a directory that an earlier set-up has left, with a key in \<open>.env\<close>;
  and the copy where only \<open>.env.example\<close> is there.
\<close>

theorem setup_keeps_dotenv_witness:
  "leave_dotenv installing \<and>
   files set_up_before ''.env'' = Some (File ''OPENAI_API_KEY=sk-test'') \<and>
   files (machine (setup_sh installing no_templates [] set_up_before)) ''.env'' =
     Some (File ''OPENAI_API_KEY=sk-test'') \<and>
   progress (setup_sh installing no_templates [] set_up_before) = Running \<and>
   written ''.env.example'' ''OPENAI_API_KEY=your_openai_api_key_here''
     (setup_sh installing no_templates [] set_up_before) \<and>
   files (machine (copy_env (with_file ''.env.example'' ''KEY='' (initial [] bare)))) ''.env'' =
     Some (File ''KEY='')"
proof -
  have env: "files set_up_before ''.env'' = Some (File ''OPENAI_API_KEY=sk-test'')"
    by (simp add: set_up_before_def)
  have run: "progress (setup_sh installing no_templates [] set_up_before) = Running"
    by (rule setup_runs_through [OF well_provided_installing])
  have gen: "(''.env.example'', ''OPENAI_API_KEY=your_openai_api_key_here'')
      \<in> set (generated no_templates)"
    by (simp add: generated_def no_templates_def)
  have fresh: "progress (with_file ''.env.example'' ''KEY='' (initial [] bare)) = Running"
    "files (machine (with_file ''.env.example'' ''KEY='' (initial [] bare))) ''.env'' = None"
    "files (machine (with_file ''.env.example'' ''KEY='' (initial [] bare))) ''.env.example'' =
      Some (File ''KEY='')"
    by (simp_all add: with_file_def initial_def bare_def)
  from setup_keeps_dotenv [of installing set_up_before "''OPENAI_API_KEY=sk-test''"
      no_templates "[]" "with_file ''.env.example'' ''KEY='' (initial [] bare)" "''KEY=''"]
    leave_dotenv_installing env run gen fresh
  show ?thesis by blast
qed

end
